theory Spec2Isabelle
  imports Complex_Main "HOL-Library.Multiset"
begin

section \<open>The certificate authority of IntrusionJS (src/ca.js)\<close>

text \<open>
  The module keeps a root certificate with its key pair in a folder on disk and issues
  leaf certificates for host names. It is written against node-forge (keys, certificates,
  PEM text), Node's \<open>fs\<close> and \<open>path\<close>, \<open>mkdirp\<close> and \<open>async\<close>. The model below follows
  the class \<open>CA\<close> method by method. What the libraries compute is a parameter: the PEM
  coder, \<open>path.join\<close> and the extension lists that \<open>setExtensions\<close> refuses are fields
  of \<open>lib\<close>. What the runtime hands to one call (clock readings, the offset of local
  time, random draws, the generated key pair, which writes fail, which of several failing
  reads reports first) are fields of \<open>runtime\<close>. A JavaScript exception is a value
  \<open>Inl\<close> of a sum type; a callback that receives an error argument is a result carrying
  \<open>Some err\<close>.
\<close>

subsection \<open>Certificates as node-forge objects\<close>

datatype attribute = Name string string | ShortName string string

datatype altName = TypeIP string | TypeDNS string

fun altNameType :: "altName \<Rightarrow> nat" where
  "altNameType (TypeIP h) = 7"
| "altNameType (TypeDNS h) = 2"

datatype extension = Extension string "(string \<times> bool) list" | SubjectAltName "altName list"

datatype publicKey = PublicKey string

datatype privateKey = PrivateKey string

datatype digest = MD5 | SHA1 | SHA256 | SHA384 | SHA512

datatype signature = Signature privateKey digest

record validity =
  notBefore :: int
  notAfter :: int

record keypair =
  publicKey :: publicKey
  privateKey :: privateKey

record certificate =
  publicKey :: publicKey
  serialNumber :: string
  validity :: validity
  subject :: "attribute list"
  issuer :: "attribute list"
  extensions :: "extension list"
  signature :: signature

definition CA_ATTRIBUTES :: "attribute list" where
  "CA_ATTRIBUTES =
    [Name ''commonName'' ''IntrusionJSCA'',
     Name ''countryName'' ''Internet'',
     ShortName ''ST'' ''Internet'',
     Name ''localityName'' ''Internet'',
     Name ''organizationName'' ''IntrusionJS Interception Proxy'',
     ShortName ''OU'' ''CA'']"

definition CA_EXTENSIONS :: "extension list" where
  "CA_EXTENSIONS =
    [Extension ''basicConstraints'' [(''cA'', True)],
     Extension ''keyUsage''
       [(''keyCertSign'', True), (''digitalSignature'', True), (''nonRepudiation'', True),
        (''keyEncipherment'', True), (''dataEncipherment'', True)],
     Extension ''extKeyUsage''
       [(''serverAuth'', True), (''clientAuth'', True), (''codeSigning'', True),
        (''emailProtection'', True), (''timeStamping'', True)],
     Extension ''nsCertType''
       [(''client'', True), (''server'', True), (''email'', True), (''objsign'', True),
        (''sslCA'', True), (''emailCA'', True), (''objCA'', True)],
     Extension ''subjectKeyIdentifier'' []]"

definition SERVER_ATTRIBUTES :: "attribute list" where
  "SERVER_ATTRIBUTES =
    [Name ''countryName'' ''Internet'',
     ShortName ''ST'' ''Internet'',
     Name ''localityName'' ''Internet'',
     Name ''organizationName'' ''IntrusionJS Interception Proxy'',
     ShortName ''OU'' ''IntrusionJS Interception Proxy Server Certificate'']"

definition SERVER_EXTENSIONS :: "extension list" where
  "SERVER_EXTENSIONS =
    [Extension ''basicConstraints'' [(''cA'', False)],
     Extension ''keyUsage''
       [(''keyCertSign'', False), (''digitalSignature'', True), (''nonRepudiation'', False),
        (''keyEncipherment'', True), (''dataEncipherment'', True)],
     Extension ''extKeyUsage'' [(''serverAuth'', True), (''clientAuth'', True)],
     Extension ''nsCertType'' [(''client'', True), (''server'', True)],
     Extension ''subjectKeyIdentifier'' []]"

text \<open>The entries of every \<open>subjectAltName\<close> extension of a certificate, in order.\<close>

fun altNamesOf :: "extension list \<Rightarrow> altName list" where
  "altNamesOf [] = []"
| "altNamesOf (SubjectAltName ns # es) = ns @ altNamesOf es"
| "altNamesOf (Extension n fs # es) = altNamesOf es"

text \<open>The values of the \<open>commonName\<close> attributes of a distinguished name.\<close>

fun commonNames :: "attribute list \<Rightarrow> string list" where
  "commonNames [] = []"
| "commonNames (Name n v # as) = (if n = ''commonName'' then v # commonNames as else commonNames as)"
| "commonNames (ShortName n v # as) = commonNames as"

subsection \<open>Errors, libraries and the runtime\<close>

datatype error =
    ReadError string
  | WriteError string
  | KeyGenError
  | PemError
  | TypeError string
  | ForgeError string

text \<open>
  \<open>certificateFromPem\<close>, \<open>privateKeyFromPem\<close> and \<open>publicKeyFromPem\<close> throw on text that
  does not decode: \<open>None\<close> here. \<open>cert.setExtensions\<close> throws on an extension list that
  node-forge refuses (an alternative name of type 7 whose \<open>ip\<close> text it cannot turn into
  address bytes): \<open>setExtensionsThrows\<close> says for which lists.
\<close>

record lib =
  pathJoin :: "string \<Rightarrow> string \<Rightarrow> string"
  certificateToPem :: "certificate \<Rightarrow> string"
  privateKeyToPem :: "privateKey \<Rightarrow> string"
  publicKeyToPem :: "publicKey \<Rightarrow> string"
  certificateFromPem :: "string \<Rightarrow> certificate option"
  privateKeyFromPem :: "string \<Rightarrow> privateKey option"
  publicKeyFromPem :: "string \<Rightarrow> publicKey option"
  setExtensionsThrows :: "extension list \<Rightarrow> bool"

text \<open>
  One call reads the clock twice (\<open>new Date()\<close> for \<open>notBefore\<close>, then for \<open>notAfter\<close>),
  draws \<open>Math.random()\<close> four times, generates one key pair and writes three files.
  \<open>LocalTZA t isUTC\<close> is the offset of local time from UTC in milliseconds that is in
  force at time value \<open>t\<close>, where \<open>t\<close> is read as UTC when \<open>isUTC\<close> holds and as local
  time otherwise (it changes where daylight saving starts or ends). Reads that
  \<open>async.auto\<close> runs together may fail in any order: \<open>firstToFail\<close> picks the failing
  read whose error arrives first.
\<close>

record runtime =
  LocalTZA :: "int \<Rightarrow> bool \<Rightarrow> int"
  firstToFail :: nat
  now1 :: int
  now2 :: int
  mathRandom :: "nat \<Rightarrow> real"
  generateKeyPair :: "error + keypair"
  writeFails :: "string \<Rightarrow> bool"

subsection \<open>randomSerialNumber\<close>

definition hexDigit :: "nat \<Rightarrow> char" where
  "hexDigit d = ''0123456789abcdef'' ! d"

text \<open>\<open>Number.prototype.toString(16)\<close> on a non-negative integer.\<close>

fun toString16 :: "nat \<Rightarrow> string" where
  "toString16 n = (if n < 16 then [hexDigit n] else toString16 (n div 16) @ [hexDigit (n mod 16)])"

declare toString16.simps [simp del]

text \<open>\<open>s.slice(-k)\<close>: the last \<open>k\<close> characters, the whole string when it is shorter.\<close>

definition slice_last :: "nat \<Rightarrow> string \<Rightarrow> string" where
  "slice_last k s = drop (length s - k) s"

text \<open>
  One block: \<open>`00000000${Math.floor(x * 256 ** 4).toString(16)}`.slice(-8)\<close> for a draw
  \<open>x\<close> of \<open>Math.random()\<close>. The product with a power of two is exact on doubles, so the
  real number \<open>x * 256 ^ 4\<close> is the value the code floors.
\<close>

definition randomBlock :: "real \<Rightarrow> string" where
  "randomBlock x = slice_last 8 (''00000000'' @ toString16 (nat \<lfloor>x * 256 ^ 4\<rfloor>))"

definition randomSerialNumber :: "(nat \<Rightarrow> real) \<Rightarrow> string" where
  "randomSerialNumber rnd = concat (map (\<lambda>i. randomBlock (rnd i)) [0..<4])"

text \<open>Reading hexadecimal text back, to say what a serial number carries.\<close>

definition hexChars :: "char set" where
  "hexChars = set ''0123456789abcdef''"

definition hexValue :: "char \<Rightarrow> nat" where
  "hexValue c =
    (if c = CHR ''a'' then 10 else if c = CHR ''b'' then 11 else if c = CHR ''c'' then 12
     else if c = CHR ''d'' then 13 else if c = CHR ''e'' then 14 else if c = CHR ''f'' then 15
     else of_char c - 48)"

definition fromString16 :: "string \<Rightarrow> nat" where
  "fromString16 s = foldl (\<lambda>a c. 16 * a + hexValue c) 0 s"

subsection \<open>Dates: the time values of ECMAScript\<close>

text \<open>
  A \<open>Date\<close> is a number of milliseconds since the epoch. The functions are those of the
  language definition (Day, TimeWithinDay, DaysInYear, DayFromYear, YearFromTime,
  MonthFromTime, DateFromTime, MakeDay, MakeDate), with months counted from 0.
\<close>

definition msPerDay :: int where
  "msPerDay = 86400000"

definition Day :: "int \<Rightarrow> int" where
  "Day t = t div msPerDay"

definition TimeWithinDay :: "int \<Rightarrow> int" where
  "TimeWithinDay t = t mod msPerDay"

definition DaysInYear :: "int \<Rightarrow> int" where
  "DaysInYear y =
    (if y mod 4 \<noteq> 0 then 365 else if y mod 100 \<noteq> 0 then 366
     else if y mod 400 \<noteq> 0 then 365 else 366)"

definition DayFromYear :: "int \<Rightarrow> int" where
  "DayFromYear y =
    365 * (y - 1970) + (y - 1969) div 4 - (y - 1901) div 100 + (y - 1601) div 400"

text \<open>
  YearFromTime is the largest year that starts no later than the given day: a search
  upwards from a year that starts early enough.
\<close>

function yearUp :: "int \<Rightarrow> int \<Rightarrow> int" where
  "yearUp y d = (if DayFromYear (y + 1) \<le> d then yearUp (y + 1) d else y)"
  by pat_completeness auto
termination
proof (relation "measure (\<lambda>(y, d). nat (d - DayFromYear y))")
  show "wf (measure (\<lambda>(y, d). nat (d - DayFromYear y)))"
    by simp
next
  fix y d :: int
  assume le: "DayFromYear (y + 1) \<le> d"
  define p q r where "p = (y - 1969) div 4" and "q = (y - 1901) div 100" and "r = (y - 1601) div 400"
  define p' q' r' where "p' = (y + 1 - 1969) div 4" and "q' = (y + 1 - 1901) div 100"
    and "r' = (y + 1 - 1601) div 400"
  have a: "p \<le> p'"
    unfolding p_def p'_def by (rule zdiv_mono1) simp_all
  have "q' \<le> (y - 1901 + 100) div 100"
    unfolding q'_def by (rule zdiv_mono1) simp_all
  then have b: "q' \<le> q + 1"
    by (simp add: q_def)
  have c: "r \<le> r'"
    unfolding r_def r'_def by (rule zdiv_mono1) simp_all
  have "DayFromYear y = 365 * (y - 1970) + p - q + r"
    by (simp add: DayFromYear_def p_def q_def r_def)
  moreover have "DayFromYear (y + 1) = 365 * (y + 1 - 1970) + p' - q' + r'"
    by (simp only: DayFromYear_def p'_def q'_def r'_def)
  ultimately have "DayFromYear y < DayFromYear (y + 1)"
    using a b c by presburger
  with le show "((y + 1, d), (y, d)) \<in> measure (\<lambda>(y, d). nat (d - DayFromYear y))"
    by simp
qed

declare yearUp.simps [simp del]

definition YearFromDay :: "int \<Rightarrow> int" where
  "YearFromDay d = yearUp (1970 + (if 0 \<le> d then d div 366 else d div 365)) d"

definition YearFromTime :: "int \<Rightarrow> int" where
  "YearFromTime t = YearFromDay (Day t)"

definition InLeapYear :: "int \<Rightarrow> int" where
  "InLeapYear t = (if DaysInYear (YearFromTime t) = 366 then 1 else 0)"

definition DayWithinYear :: "int \<Rightarrow> int" where
  "DayWithinYear t = Day t - DayFromYear (YearFromTime t)"

definition MonthFromTime :: "int \<Rightarrow> int" where
  "MonthFromTime t =
    (let d = DayWithinYear t; l = InLeapYear t in
     if d < 31 then 0 else if d < 59 + l then 1 else if d < 90 + l then 2
     else if d < 120 + l then 3 else if d < 151 + l then 4 else if d < 181 + l then 5
     else if d < 212 + l then 6 else if d < 243 + l then 7 else if d < 273 + l then 8
     else if d < 304 + l then 9 else if d < 334 + l then 10 else 11)"

definition DateFromTime :: "int \<Rightarrow> int" where
  "DateFromTime t =
    (let d = DayWithinYear t; l = InLeapYear t; m = MonthFromTime t in
     if m = 0 then d + 1 else if m = 1 then d - 30 else if m = 2 then d - 58 - l
     else if m = 3 then d - 89 - l else if m = 4 then d - 119 - l else if m = 5 then d - 150 - l
     else if m = 6 then d - 180 - l else if m = 7 then d - 211 - l else if m = 8 then d - 242 - l
     else if m = 9 then d - 272 - l else if m = 10 then d - 303 - l else d - 333 - l)"

text \<open>The day within year \<open>y\<close> on which month \<open>m\<close> (0 to 11) starts.\<close>

definition MonthStart :: "int \<Rightarrow> int \<Rightarrow> int" where
  "MonthStart y m =
    (let l = (if DaysInYear y = 366 then 1 else 0) in
     if m = 0 then 0 else if m = 1 then 31 else if m = 2 then 59 + l
     else if m = 3 then 90 + l else if m = 4 then 120 + l else if m = 5 then 151 + l
     else if m = 6 then 181 + l else if m = 7 then 212 + l else if m = 8 then 243 + l
     else if m = 9 then 273 + l else if m = 10 then 304 + l else 334 + l)"

definition MakeDay :: "int \<Rightarrow> int \<Rightarrow> int \<Rightarrow> int" where
  "MakeDay year month date =
    (let ym = year + month div 12; mn = month mod 12 in
     DayFromYear ym + MonthStart ym mn + date - 1)"

definition MakeDate :: "int \<Rightarrow> int \<Rightarrow> int" where
  "MakeDate day time = day * msPerDay + time"

text \<open>
  LocalTime and UTC of the language definition: the offset is the one in force at the
  time value converted.
\<close>

definition LocalTime :: "(int \<Rightarrow> bool \<Rightarrow> int) \<Rightarrow> int \<Rightarrow> int" where
  "LocalTime tza t = t + tza t True"

definition UTC :: "(int \<Rightarrow> bool \<Rightarrow> int) \<Rightarrow> int \<Rightarrow> int" where
  "UTC tza t = t - tza t False"

definition getDate :: "(int \<Rightarrow> bool \<Rightarrow> int) \<Rightarrow> int \<Rightarrow> int" where
  "getDate tza t = DateFromTime (LocalTime tza t)"

definition getFullYear :: "(int \<Rightarrow> bool \<Rightarrow> int) \<Rightarrow> int \<Rightarrow> int" where
  "getFullYear tza t = YearFromTime (LocalTime tza t)"

definition setDate :: "(int \<Rightarrow> bool \<Rightarrow> int) \<Rightarrow> int \<Rightarrow> int \<Rightarrow> int" where
  "setDate tza t dt =
    (let lt = LocalTime tza t in
     UTC tza (MakeDate (MakeDay (YearFromTime lt) (MonthFromTime lt) dt) (TimeWithinDay lt)))"

definition setFullYear :: "(int \<Rightarrow> bool \<Rightarrow> int) \<Rightarrow> int \<Rightarrow> int \<Rightarrow> int" where
  "setFullYear tza t y =
    (let lt = LocalTime tza t in
     UTC tza (MakeDate (MakeDay y (MonthFromTime lt) (DateFromTime lt)) (TimeWithinDay lt)))"

text \<open>
  The four lines that both generateCA and generateServerCertificateKeys run on
  \<open>cert.validity\<close>:
  \<^verbatim>\<open>notBefore = new Date(); notBefore.setDate(notBefore.getDate() - 1);\<close>
  \<^verbatim>\<open>notAfter = new Date(); notAfter.setFullYear(notBefore.getFullYear() + 1);\<close>
\<close>

definition certValidity :: "runtime \<Rightarrow> validity" where
  "certValidity rt =
    (let nb = setDate (LocalTZA rt) (now1 rt) (getDate (LocalTZA rt) (now1 rt) - 1);
         na = setFullYear (LocalTZA rt) (now2 rt) (getFullYear (LocalTZA rt) nb + 1)
     in \<lparr>notBefore = nb, notAfter = na\<rparr>)"

subsection \<open>The file store\<close>

record filesystem =
  files :: "string \<rightharpoonup> string"
  dirs :: "string set"

definition mkdirp :: "string \<Rightarrow> filesystem \<Rightarrow> filesystem" where
  "mkdirp p fs = fs\<lparr>dirs := insert p (dirs fs)\<rparr>"

definition existsSync :: "filesystem \<Rightarrow> string \<Rightarrow> bool" where
  "existsSync fs p = (p \<in> dom (files fs) \<or> p \<in> dirs fs)"

definition readFile :: "filesystem \<Rightarrow> string \<Rightarrow> error + string" where
  "readFile fs p = (case files fs p of None \<Rightarrow> Inl (ReadError p) | Some s \<Rightarrow> Inr s)"

text \<open>\<open>fs.writeFile\<close>: the error handed to its callback, and the store afterwards.\<close>

definition writeFile :: "runtime \<Rightarrow> string \<Rightarrow> string \<Rightarrow> filesystem \<Rightarrow> error option \<times> filesystem" where
  "writeFile rt p s fs =
    (if writeFails rt p then (Some (WriteError p), fs)
     else (None, fs\<lparr>files := (files fs)(p \<mapsto> s)\<rparr>))"

text \<open>
  \<open>async.parallel\<close> and \<open>async.series\<close> call their final callback with the error of a
  task that failed, and with no error when every task succeeded. Of several failures the
  model reports the first in task order.
\<close>

fun async_parallel :: "error option list \<Rightarrow> error option" where
  "async_parallel [] = None"
| "async_parallel (Some e # es) = Some e"
| "async_parallel (None # es) = async_parallel es"

subsection \<open>The class CA\<close>

record CA =
  baseCAFolder :: string
  certsFolder :: string
  keysFolder :: string
  CAcert :: "certificate option"
  CAkeys :: "keypair option"

text \<open>
  What a caller of \<open>create\<close> sees: its callback runs with \<open>(err, ca)\<close>, or an exception
  leaves the I/O callback uncaught and the callback never runs.
\<close>

datatype outcome = Callback "error option" CA | Uncaught error

text \<open>Lines 123 to 134: the certificate that generateCA builds and signs.\<close>

definition generateCA_cert :: "runtime \<Rightarrow> keypair \<Rightarrow> certificate" where
  "generateCA_cert rt keys =
    \<lparr>publicKey = keypair.publicKey keys,
     serialNumber = randomSerialNumber (mathRandom rt),
     validity = certValidity rt,
     subject = CA_ATTRIBUTES,
     issuer = CA_ATTRIBUTES,
     extensions = CA_EXTENSIONS,
     signature = Signature (privateKey keys) SHA256\<rparr>"

definition generateCA :: "lib \<Rightarrow> runtime \<Rightarrow> CA \<Rightarrow> filesystem \<Rightarrow> error option \<times> CA \<times> filesystem" where
  "generateCA l rt ca fs =
    (case generateKeyPair rt of
       Inl err \<Rightarrow> (Some err, ca, fs)
     | Inr keys \<Rightarrow>
        (let cert = generateCA_cert rt keys;
             ca' = ca\<lparr>CAcert := Some cert, CAkeys := Some keys\<rparr>;
             w1 = writeFile rt (pathJoin l (certsFolder ca') ''ca.pem'')
                    (certificateToPem l cert) fs;
             w2 = writeFile rt (pathJoin l (keysFolder ca') ''ca.private.key'')
                    (privateKeyToPem l (privateKey keys)) (snd w1);
             w3 = writeFile rt (pathJoin l (keysFolder ca') ''ca.public.key'')
                    (publicKeyToPem l (keypair.publicKey keys)) (snd w2)
         in (async_parallel [fst w1, fst w2, fst w3], ca', snd w3)))"

text \<open>
  \<open>async.auto\<close> runs the three reads together and calls its callback with the error of
  the read that fails first, whichever that is.
\<close>

fun failures :: "(error + string) list \<Rightarrow> error list" where
  "failures [] = []"
| "failures (Inl err # rs) = err # failures rs"
| "failures (Inr s # rs) = failures rs"

definition firstFailure :: "runtime \<Rightarrow> error list \<Rightarrow> error option" where
  "firstFailure rt errs = (if errs = [] then None else Some (errs ! (firstToFail rt mod length errs)))"

text \<open>
  loadCA: \<open>Inr (err, ca)\<close> when the callback runs, \<open>Inl\<close> when one of the three
  \<open>FromPem\<close> calls throws inside the callback of \<open>async.auto\<close>, where nothing catches it.
\<close>

definition loadCA :: "lib \<Rightarrow> runtime \<Rightarrow> CA \<Rightarrow> filesystem \<Rightarrow> error + (error option \<times> CA)" where
  "loadCA l rt ca fs =
    (let certPEM = readFile fs (pathJoin l (certsFolder ca) ''ca.pem'');
         keyPrivatePEM = readFile fs (pathJoin l (keysFolder ca) ''ca.private.key'');
         keyPublicPEM = readFile fs (pathJoin l (keysFolder ca) ''ca.public.key'');
         failed = Inr (firstFailure rt (failures [certPEM, keyPrivatePEM, keyPublicPEM]), ca)
     in case certPEM of Inl err \<Rightarrow> failed | Inr certText \<Rightarrow>
       (case keyPrivatePEM of Inl err \<Rightarrow> failed | Inr keyPrivateText \<Rightarrow>
       (case keyPublicPEM of Inl err \<Rightarrow> failed | Inr keyPublicText \<Rightarrow>
       (case certificateFromPem l certText of
          None \<Rightarrow> Inl PemError
        | Some cert \<Rightarrow>
       (case privateKeyFromPem l keyPrivateText of
          None \<Rightarrow> Inl PemError
        | Some priv \<Rightarrow>
       (case publicKeyFromPem l keyPublicText of
          None \<Rightarrow> Inl PemError
        | Some pub \<Rightarrow>
           Inr (None, ca\<lparr>CAcert := Some cert,
                           CAkeys := Some \<lparr>keypair.publicKey = pub, privateKey = priv\<rparr>\<rparr>)))))))"

text \<open>Lines 91 to 94, and the three \<open>mkdirp.sync\<close> calls of lines 96 to 98.\<close>

definition newCA :: "lib \<Rightarrow> string \<Rightarrow> CA" where
  "newCA l caFolder =
    \<lparr>baseCAFolder = caFolder,
     certsFolder = pathJoin l caFolder ''certs'',
     keysFolder = pathJoin l caFolder ''keys'',
     CAcert = None,
     CAkeys = None\<rparr>"

definition makeFolders :: "CA \<Rightarrow> filesystem \<Rightarrow> filesystem" where
  "makeFolders ca fs = mkdirp (keysFolder ca) (mkdirp (certsFolder ca) (mkdirp (baseCAFolder ca) fs))"

definition create :: "lib \<Rightarrow> runtime \<Rightarrow> string \<Rightarrow> filesystem \<Rightarrow> outcome \<times> filesystem" where
  "create l rt caFolder fs0 =
    (let ca = newCA l caFolder;
         fs = makeFolders ca fs0
     in if existsSync fs (pathJoin l (certsFolder ca) ''ca.pem'')
        then (case loadCA l rt ca fs of
                Inl exn \<Rightarrow> (Uncaught exn, fs)
              | Inr (err, ca') \<Rightarrow> (Callback err ca', fs))
        else (case generateCA l rt ca fs of
                (err, ca', fs') \<Rightarrow> (Callback err ca', fs')))"

subsection \<open>generateServerCertificateKeys\<close>

text \<open>The argument \<open>hosts\<close> is an array of strings or, by line 165, a single string.\<close>

datatype hosts = HostArray "string list" | HostString string

text \<open>\<open>Array.isArray(hosts) ? hosts[0] : hosts\<close>; \<open>None\<close> is \<open>undefined\<close>.\<close>

fun mainHost :: "hosts \<Rightarrow> string option" where
  "mainHost (HostArray []) = None"
| "mainHost (HostArray (h # hs)) = Some h"
| "mainHost (HostString s) = Some s"

text \<open>\<open>host.match(/^[\d.]+$/)\<close>: one or more characters, each a digit or a dot.\<close>

definition digitOrDot :: "char \<Rightarrow> bool" where
  "digitOrDot c = (c \<in> set ''0123456789.'')"

fun matchDigitsDots :: "string \<Rightarrow> bool" where
  "matchDigitsDots [] = False"
| "matchDigitsDots [c] = digitOrDot c"
| "matchDigitsDots (c # cs) = (digitOrDot c \<and> matchDigitsDots cs)"

definition altNameOfHost :: "string \<Rightarrow> altName" where
  "altNameOfHost host = (if matchDigitsDots host then TypeIP host else TypeDNS host)"

text \<open>\<open>mainHost.replace(/\*/g, "_")\<close>.\<close>

fun replaceStars :: "string \<Rightarrow> string" where
  "replaceStars [] = []"
| "replaceStars (c # cs) = (if c = CHR ''*'' then CHR ''_'' else c) # replaceStars cs"

text \<open>
  Lines 167 to 187: the leaf certificate, from the root certificate and keys of the
  authority, the fresh server keys, the main host and the host array.
\<close>

definition certServer ::
  "runtime \<Rightarrow> certificate \<Rightarrow> keypair \<Rightarrow> keypair \<Rightarrow> string \<Rightarrow> string list \<Rightarrow> certificate" where
  "certServer rt cacert cakeys keysServer mh hs =
    \<lparr>publicKey = keypair.publicKey keysServer,
     serialNumber = randomSerialNumber (mathRandom rt),
     validity = certValidity rt,
     subject = Name ''commonName'' mh # SERVER_ATTRIBUTES,
     issuer = issuer cacert,
     extensions = SERVER_EXTENSIONS @ [SubjectAltName (map altNameOfHost hs)],
     signature = Signature (privateKey cakeys) SHA256\<rparr>"

text \<open>
  What one issuance leaves behind: the two arguments of the callback \<open>cb\<close>, the lines
  written with \<open>console.error\<close>, and the store after the three writes. The three
  writes complete in any order, so the lines are a multiset; the three paths differ, so
  the store does not depend on the order.
\<close>

record issuance =
  certPem :: string
  keyPrivatePem :: string
  consoleError :: "string multiset"
  disk :: filesystem

text \<open>
  \<open>fs.writeFile(path, text, err => { if (err) console.error(msg, err); })\<close> on the lines
  printed so far and the store so far.
\<close>

definition saveOrLog ::
  "runtime \<Rightarrow> string \<Rightarrow> string \<Rightarrow> string \<Rightarrow> string multiset \<times> filesystem \<Rightarrow> string multiset \<times> filesystem" where
  "saveOrLog rt p s msg st =
    (case writeFile rt p s (snd st) of
       (Some err, fs') \<Rightarrow> (add_mset msg (fst st), fs')
     | (None, fs') \<Rightarrow> (fst st, fs'))"

text \<open>
  The statements in source order, each with the exception it can end in: line 166
  (key generation), line 177 (\<open>setSubject\<close> refuses a \<open>commonName\<close> whose value is
  \<open>undefined\<close>, the main host of an empty array), line 178 (\<open>this.CAcert\<close> is null),
  line 183 (a string has no \<open>map\<close>), line 179 (\<open>setExtensions\<close> refuses the list),
  line 187 (\<open>this.CAkeys\<close> is null). After these nothing throws: the three writes start
  and \<open>cb\<close> runs.
\<close>

definition generateServerCertificateKeys ::
  "lib \<Rightarrow> runtime \<Rightarrow> CA \<Rightarrow> hosts \<Rightarrow> filesystem \<Rightarrow> error + issuance" where
  "generateServerCertificateKeys l rt ca hs fs =
    (case generateKeyPair rt of
       Inl exn \<Rightarrow> Inl exn
     | Inr keysServer \<Rightarrow>
    (case mainHost hs of
       None \<Rightarrow> Inl (ForgeError ''setSubject: commonName is undefined'')
     | Some mh \<Rightarrow>
    (case CAcert ca of
       None \<Rightarrow> Inl (TypeError ''this.CAcert is null'')
     | Some cacert \<Rightarrow>
    (case hs of
       HostString s \<Rightarrow> Inl (TypeError ''hosts.map is not a function'')
     | HostArray hosts \<Rightarrow>
    (if setExtensionsThrows l (SERVER_EXTENSIONS @ [SubjectAltName (map altNameOfHost hosts)])
     then Inl (ForgeError ''setExtensions'')
     else
    (case CAkeys ca of
       None \<Rightarrow> Inl (TypeError ''this.CAkeys is null'')
     | Some cakeys \<Rightarrow>
        (let cert = certServer rt cacert cakeys keysServer mh hosts;
             certPem = certificateToPem l cert;
             keyPrivatePem = privateKeyToPem l (privateKey keysServer);
             keyPublicPem = publicKeyToPem l (keypair.publicKey keysServer);
             certFileName = replaceStars mh;
             st1 = saveOrLog rt (certsFolder ca @ ''/'' @ certFileName @ ''.pem'') certPem
                     (''Failed to save certificate to disk in '' @ certsFolder ca) ({#}, fs);
             st2 = saveOrLog rt (keysFolder ca @ ''/'' @ certFileName @ ''.key'') keyPrivatePem
                     (''Failed to save private key to disk in '' @ keysFolder ca) st1;
             st3 = saveOrLog rt (keysFolder ca @ ''/'' @ certFileName @ ''.public.key'') keyPublicPem
                     (''Failed to save public key to disk in '' @ keysFolder ca) st2
         in Inr \<lparr>certPem = certPem, keyPrivatePem = keyPrivatePem,
                  consoleError = fst st3, disk = snd st3\<rparr>)))))))"

subsection \<open>A library instance and stores to run the operations on\<close>

text \<open>
  What node-forge's \<open>util.bytesFromIP\<close> accepts among strings of digits and dots: four
  parts between the dots, none of them empty.
\<close>

fun splitDots :: "string \<Rightarrow> string list" where
  "splitDots [] = [[]]"
| "splitDots (c # cs) =
    (if c = CHR ''.'' then [] # splitDots cs
     else (case splitDots cs of p # ps \<Rightarrow> (c # p) # ps | [] \<Rightarrow> [[c]]))"

definition fourParts :: "string \<Rightarrow> bool" where
  "fourParts h = (length (splitDots h) = 4 \<and> list_all (\<lambda>p. p \<noteq> []) (splitDots h))"

fun refusedAltName :: "altName \<Rightarrow> bool" where
  "refusedAltName (TypeIP h) = (\<not> fourParts h)"
| "refusedAltName (TypeDNS h) = False"

text \<open>
  A small PEM coder: key text carries the key material behind a tag, certificate text
  names one of two fixed certificates. \<open>selfSigned\<close> has the distinguished name of the
  roots that generateCA makes as subject and issuer; \<open>crossSigned\<close> is a certificate of the
  same authority issued by another one.
\<close>

definition selfSigned :: certificate where
  "selfSigned =
    \<lparr>publicKey = PublicKey ''k1'', serialNumber = ''01'',
     validity = \<lparr>notBefore = 0, notAfter = 31536000000\<rparr>,
     subject = CA_ATTRIBUTES, issuer = CA_ATTRIBUTES, extensions = CA_EXTENSIONS,
     signature = Signature (PrivateKey ''k1'') SHA256\<rparr>"

definition crossSigned :: certificate where
  "crossSigned =
    \<lparr>publicKey = PublicKey ''k1'', serialNumber = ''02'',
     validity = \<lparr>notBefore = 0, notAfter = 31536000000\<rparr>,
     subject = CA_ATTRIBUTES, issuer = [Name ''commonName'' ''Corporate Root''],
     extensions = CA_EXTENSIONS,
     signature = Signature (PrivateKey ''k0'') SHA256\<rparr>"

definition pemLib :: lib where
  "pemLib =
    \<lparr>pathJoin = (\<lambda>a b. a @ ''/'' @ b),
     certificateToPem = (\<lambda>c. ''CERTIFICATE '' @ serialNumber c),
     privateKeyToPem = (\<lambda>k. case k of PrivateKey s \<Rightarrow> ''PRIVATE '' @ s),
     publicKeyToPem = (\<lambda>k. case k of PublicKey s \<Rightarrow> ''PUBLIC '' @ s),
     certificateFromPem = (\<lambda>s. if s = ''CERTIFICATE 01'' then Some selfSigned
                                 else if s = ''CERTIFICATE 02'' then Some crossSigned else None),
     privateKeyFromPem = (\<lambda>s. if take 8 s = ''PRIVATE '' then Some (PrivateKey (drop 8 s)) else None),
     publicKeyFromPem = (\<lambda>s. if take 7 s = ''PUBLIC '' then Some (PublicKey (drop 7 s)) else None),
     setExtensionsThrows = (\<lambda>es. list_ex refusedAltName (altNamesOf es))\<rparr>"

definition storeWith :: "string \<Rightarrow> filesystem" where
  "storeWith certText =
    \<lparr>files = [''ca/certs/ca.pem'' \<mapsto> certText,
              ''ca/keys/ca.private.key'' \<mapsto> ''PRIVATE k1'',
              ''ca/keys/ca.public.key'' \<mapsto> ''PUBLIC k1''],
     dirs = {''ca'', ''ca/certs'', ''ca/keys''}\<rparr>"

definition emptyStore :: filesystem where
  "emptyStore = \<lparr>files = Map.empty, dirs = {}\<rparr>"

text \<open>
  A runtime in the zone UTC: both clock readings at the same instant, fixed draws and
  keys, and a choice of the paths on which writing fails.
\<close>

definition runtimeAt :: "int \<Rightarrow> (string \<Rightarrow> bool) \<Rightarrow> runtime" where
  "runtimeAt now failing =
    \<lparr>LocalTZA = (\<lambda>t isUTC. 0), firstToFail = 0, now1 = now, now2 = now,
     mathRandom = (\<lambda>i. if i = 0 then 0 else if i = 1 then 1 / 2 else 1 / 3),
     generateKeyPair = Inr \<lparr>keypair.publicKey = PublicKey ''k2'', privateKey = PrivateKey ''k2''\<rparr>,
     writeFails = failing\<rparr>"


subsection \<open>Notions used to state the properties\<close>

text \<open>
  What the caller of \<open>create\<close> sees when \<open>create\<close> takes the branch of loadCA, and the
  root certificate that an outcome hands over (none when an error is reported or thrown).
\<close>

definition loaded :: "lib \<Rightarrow> runtime \<Rightarrow> string \<Rightarrow> filesystem \<Rightarrow> outcome" where
  "loaded l rt base fs =
    (case loadCA l rt (newCA l base) (makeFolders (newCA l base) fs) of
       Inl exn \<Rightarrow> Uncaught exn
     | Inr (err, ca') \<Rightarrow> Callback err ca')"

fun rootCertificate :: "outcome \<Rightarrow> certificate option" where
  "rootCertificate (Callback None ca) = CAcert ca"
| "rootCertificate (Callback (Some err) ca) = None"
| "rootCertificate (Uncaught exn) = None"

text \<open>The authority that loading the example store yields, for a given root certificate.\<close>

definition loadedCA :: "certificate \<Rightarrow> CA" where
  "loadedCA c =
    \<lparr>baseCAFolder = ''ca'', certsFolder = ''ca/certs'', keysFolder = ''ca/keys'',
     CAcert = Some c,
     CAkeys = Some \<lparr>keypair.publicKey = PublicKey ''k1'', privateKey = PrivateKey ''k1''\<rparr>\<rparr>"

text \<open>The three paths that one issuance writes for main host \<open>h\<close>.\<close>

definition leafPaths :: "CA \<Rightarrow> string \<Rightarrow> string list" where
  "leafPaths ca h =
    [certsFolder ca @ ''/'' @ replaceStars h @ ''.pem'',
     keysFolder ca @ ''/'' @ replaceStars h @ ''.key'',
     keysFolder ca @ ''/'' @ replaceStars h @ ''.public.key'']"

section \<open>Properties\<close>

subsection \<open>Opening a store that holds a root certificate\<close>

lemma mkdirp_files: "files (mkdirp p fs) = files fs"
  by (simp add: mkdirp_def)

lemma makeFolders_files: "files (makeFolders ca fs) = files fs"
  by (simp add: makeFolders_def mkdirp_files)

lemma existsSync_makeFolders: "existsSync fs p \<Longrightarrow> existsSync (makeFolders ca fs) p"
  by (auto simp: existsSync_def makeFolders_def mkdirp_def)

lemma create_existing:
  assumes "existsSync fs (pathJoin l (pathJoin l base ''certs'') ''ca.pem'')"
  shows "create l rt base fs = (loaded l rt base fs, makeFolders (newCA l base) fs)"
proof -
  have "existsSync (makeFolders (newCA l base) fs) (pathJoin l (certsFolder (newCA l base)) ''ca.pem'')"
    using assms by (simp add: existsSync_makeFolders newCA_def)
  then show ?thesis
    by (simp add: create_def loaded_def Let_def split: sum.splits prod.splits)
qed

lemma readFile_files: "files fs' = files fs \<Longrightarrow> readFile fs' p = readFile fs p"
  by (simp add: readFile_def)

lemma loadCA_files:
  assumes "files fs' = files fs"
  shows "loadCA l rt ca fs' = loadCA l rt ca fs"
  unfolding loadCA_def readFile_files [OF assms] ..

lemma firstFailure_Some: "errs \<noteq> [] \<Longrightarrow> \<exists>e. firstFailure rt errs = Some e \<and> e \<in> set errs"
  by (simp add: firstFailure_def)

text \<open>What loadCA does, by the three files and the three decoders.\<close>

lemma loadCA_decoded:
  assumes "files fs (pathJoin l (certsFolder ca) ''ca.pem'') = Some certText"
    and "files fs (pathJoin l (keysFolder ca) ''ca.private.key'') = Some keyPrivateText"
    and "files fs (pathJoin l (keysFolder ca) ''ca.public.key'') = Some keyPublicText"
  shows "loadCA l rt ca fs =
    (case certificateFromPem l certText of None \<Rightarrow> Inl PemError | Some cert \<Rightarrow>
     case privateKeyFromPem l keyPrivateText of None \<Rightarrow> Inl PemError | Some priv \<Rightarrow>
     case publicKeyFromPem l keyPublicText of None \<Rightarrow> Inl PemError | Some pub \<Rightarrow>
       Inr (None, ca\<lparr>CAcert := Some cert,
                       CAkeys := Some \<lparr>keypair.publicKey = pub, privateKey = priv\<rparr>\<rparr>))"
  using assms by (simp add: loadCA_def readFile_def Let_def)

lemma loadCA_unreadable:
  assumes "files fs (pathJoin l (certsFolder ca) ''ca.pem'') = None
         \<or> files fs (pathJoin l (keysFolder ca) ''ca.private.key'') = None
         \<or> files fs (pathJoin l (keysFolder ca) ''ca.public.key'') = None"
  shows "\<exists>p. loadCA l rt ca fs = Inr (Some (ReadError p), ca) \<and> files fs p = None"
proof -
  define r1 where "r1 = readFile fs (pathJoin l (certsFolder ca) ''ca.pem'')"
  define r2 where "r2 = readFile fs (pathJoin l (keysFolder ca) ''ca.private.key'')"
  define r3 where "r3 = readFile fs (pathJoin l (keysFolder ca) ''ca.public.key'')"
  have bad: "(\<exists>e. r1 = Inl e) \<or> (\<exists>e. r2 = Inl e) \<or> (\<exists>e. r3 = Inl e)"
    using assms unfolding r1_def r2_def r3_def readFile_def by auto
  then have ne: "failures [r1, r2, r3] \<noteq> []"
    by (cases r1; cases r2; cases r3) auto
  have m: "\<exists>p. e = ReadError p \<and> files fs p = None" if "e \<in> set (failures [r1, r2, r3])" for e
  proof -
    have "r1 = Inl e \<or> r2 = Inl e \<or> r3 = Inl e"
      using that by (cases r1; cases r2; cases r3) auto
    then show ?thesis
      unfolding r1_def r2_def r3_def readFile_def by (auto split: option.splits)
  qed
  obtain e where e: "firstFailure rt (failures [r1, r2, r3]) = Some e" "e \<in> set (failures [r1, r2, r3])"
    using firstFailure_Some [OF ne] by blast
  have "loadCA l rt ca fs =
      (case r1 of Inl err \<Rightarrow> Inr (Some e, ca) | Inr x \<Rightarrow>
       case r2 of Inl err \<Rightarrow> Inr (Some e, ca) | Inr y \<Rightarrow>
       case r3 of Inl err \<Rightarrow> Inr (Some e, ca))"
    using bad unfolding loadCA_def Let_def r1_def [symmetric] r2_def [symmetric] r3_def [symmetric] e(1)
    by (cases r1; cases r2; cases r3) simp_all
  then have "loadCA l rt ca fs = Inr (Some e, ca)"
    using bad by (cases r1; cases r2; cases r3) simp_all
  then show ?thesis
    using m [OF e(2)] by auto
qed

lemma loaded_files: "files fs' = files fs \<Longrightarrow> loaded l rt base fs' = loaded l rt base fs"
  by (simp add: loaded_def makeFolders_files cong: loadCA_files)

lemma loaded_decoded:
  assumes "files fs (pathJoin l (pathJoin l base ''certs'') ''ca.pem'') = Some certText"
    and "files fs (pathJoin l (pathJoin l base ''keys'') ''ca.private.key'') = Some keyPrivateText"
    and "files fs (pathJoin l (pathJoin l base ''keys'') ''ca.public.key'') = Some keyPublicText"
  shows "loaded l rt base fs =
    (case certificateFromPem l certText of None \<Rightarrow> Uncaught PemError | Some cert \<Rightarrow>
     case privateKeyFromPem l keyPrivateText of None \<Rightarrow> Uncaught PemError | Some priv \<Rightarrow>
     case publicKeyFromPem l keyPublicText of None \<Rightarrow> Uncaught PemError | Some pub \<Rightarrow>
       Callback None ((newCA l base)\<lparr>CAcert := Some cert,
                       CAkeys := Some \<lparr>keypair.publicKey = pub, privateKey = priv\<rparr>\<rparr>))"
proof -
  have "loadCA l rt (newCA l base) (makeFolders (newCA l base) fs) =
    (case certificateFromPem l certText of None \<Rightarrow> Inl PemError | Some cert \<Rightarrow>
     case privateKeyFromPem l keyPrivateText of None \<Rightarrow> Inl PemError | Some priv \<Rightarrow>
     case publicKeyFromPem l keyPublicText of None \<Rightarrow> Inl PemError | Some pub \<Rightarrow>
       Inr (None, (newCA l base)\<lparr>CAcert := Some cert,
                       CAkeys := Some \<lparr>keypair.publicKey = pub, privateKey = priv\<rparr>\<rparr>))"
    by (rule loadCA_decoded) (simp_all add: makeFolders_files newCA_def assms)
  then show ?thesis
    by (simp add: loaded_def split: option.splits)
qed

lemma loaded_unreadable:
  assumes "files fs (pathJoin l (pathJoin l base ''certs'') ''ca.pem'') = None
         \<or> files fs (pathJoin l (pathJoin l base ''keys'') ''ca.private.key'') = None
         \<or> files fs (pathJoin l (pathJoin l base ''keys'') ''ca.public.key'') = None"
  shows "\<exists>p. loaded l rt base fs = Callback (Some (ReadError p)) (newCA l base) \<and> files fs p = None"
proof -
  have "\<exists>p. loadCA l rt (newCA l base) (makeFolders (newCA l base) fs)
            = Inr (Some (ReadError p), newCA l base)
          \<and> files (makeFolders (newCA l base) fs) p = None"
    by (rule loadCA_unreadable) (use assms in \<open>simp add: makeFolders_files newCA_def\<close>)
  then show ?thesis
    by (auto simp: loaded_def makeFolders_files)
qed

lemma storeWith_exists:
  "existsSync (storeWith t) (pathJoin pemLib (pathJoin pemLib ''ca'' ''certs'') ''ca.pem'')"
  by (simp add: existsSync_def storeWith_def pemLib_def)

lemma storeWith_loaded:
  "loaded pemLib rt ''ca'' (storeWith t) =
     (case certificateFromPem pemLib t of None \<Rightarrow> Uncaught PemError
      | Some cert \<Rightarrow> Callback None (loadedCA cert))"
proof -
  have "loaded pemLib rt ''ca'' (storeWith t) =
    (case certificateFromPem pemLib t of None \<Rightarrow> Uncaught PemError | Some cert \<Rightarrow>
     case privateKeyFromPem pemLib ''PRIVATE k1'' of None \<Rightarrow> Uncaught PemError | Some priv \<Rightarrow>
     case publicKeyFromPem pemLib ''PUBLIC k1'' of None \<Rightarrow> Uncaught PemError | Some pub \<Rightarrow>
       Callback None ((newCA pemLib ''ca'')\<lparr>CAcert := Some cert,
                       CAkeys := Some \<lparr>keypair.publicKey = pub, privateKey = priv\<rparr>\<rparr>))"
    by (rule loaded_decoded) (simp_all add: storeWith_def pemLib_def)
  then show ?thesis
    by (simp add: pemLib_def newCA_def loadedCA_def split: option.splits)
qed

text \<open>
  C1 (root load-or-create is idempotent). When \<open>certs/ca.pem\<close> exists under the base
  folder, \<open>create\<close> writes no file, and a root certificate that it hands over is what
  \<open>certificateFromPem\<close> decodes from the text of \<open>ca.pem\<close>. When the three files are
  there and decode, the authority handed over holds the decoded certificate and the two
  decoded keys, and a second \<open>create\<close> on the store the first one left, under any other
  runtime \<open>rt'\<close> (other keys, draws, clock, failing writes), hands over the same
  authority. In every case the two calls hand over the same root certificate or none:
  the same subject, issuer and public key.
\<close>

theorem open_loads_existing_root:
  assumes "existsSync fs (pathJoin l (pathJoin l base ''certs'') ''ca.pem'')"
  shows "files (snd (create l rt base fs)) = files fs
       \<and> rootCertificate (fst (create l rt' base (snd (create l rt base fs))))
           = rootCertificate (fst (create l rt base fs))
       \<and> (\<forall>c. rootCertificate (fst (create l rt base fs)) = Some c \<longrightarrow>
             (\<exists>certText. files fs (pathJoin l (pathJoin l base ''certs'') ''ca.pem'') = Some certText
                \<and> certificateFromPem l certText = Some c))
       \<and> (files fs (pathJoin l (pathJoin l base ''certs'') ''ca.pem'') = Some certText
            \<and> files fs (pathJoin l (pathJoin l base ''keys'') ''ca.private.key'') = Some keyPrivateText
            \<and> files fs (pathJoin l (pathJoin l base ''keys'') ''ca.public.key'') = Some keyPublicText
            \<and> certificateFromPem l certText = Some cert
            \<and> privateKeyFromPem l keyPrivateText = Some priv
            \<and> publicKeyFromPem l keyPublicText = Some pub \<longrightarrow>
          fst (create l rt base fs)
            = Callback None ((newCA l base)\<lparr>CAcert := Some cert,
                CAkeys := Some \<lparr>keypair.publicKey = pub, privateKey = priv\<rparr>\<rparr>)
          \<and> fst (create l rt' base (snd (create l rt base fs)))
            = Callback None ((newCA l base)\<lparr>CAcert := Some cert,
                CAkeys := Some \<lparr>keypair.publicKey = pub, privateKey = priv\<rparr>\<rparr>))"
proof -
  let ?fs1 = "makeFolders (newCA l base) fs"
  let ?p1 = "pathJoin l (pathJoin l base ''certs'') ''ca.pem''"
  let ?p2 = "pathJoin l (pathJoin l base ''keys'') ''ca.private.key''"
  let ?p3 = "pathJoin l (pathJoin l base ''keys'') ''ca.public.key''"
  have first: "create l rt base fs = (loaded l rt base fs, ?fs1)"
    by (rule create_existing [OF assms])
  have "create l rt' base ?fs1 = (loaded l rt' base ?fs1, makeFolders (newCA l base) ?fs1)"
    by (rule create_existing [OF existsSync_makeFolders [OF assms]])
  then have second: "fst (create l rt' base ?fs1) = loaded l rt' base fs"
    by (simp add: loaded_files [OF makeFolders_files])
  have a: "files (snd (create l rt base fs)) = files fs"
    by (simp add: first makeFolders_files)
  have b: "rootCertificate (loaded l rt' base fs) = rootCertificate (loaded l rt base fs)
      \<and> (\<forall>c. rootCertificate (loaded l rt base fs) = Some c \<longrightarrow>
             (\<exists>certText. files fs ?p1 = Some certText \<and> certificateFromPem l certText = Some c))"
  proof (cases "files fs ?p1 = None \<or> files fs ?p2 = None \<or> files fs ?p3 = None")
    case True
    show ?thesis
      using loaded_unreadable [OF True, of rt] loaded_unreadable [OF True, of rt'] by auto
  next
    case False
    then obtain x y z where f: "files fs ?p1 = Some x" "files fs ?p2 = Some y" "files fs ?p3 = Some z"
      by auto
    show ?thesis
      unfolding loaded_decoded [OF f] using f(1) by (auto split: option.splits)
  qed
  have c: "loaded l r base fs
            = Callback None ((newCA l base)\<lparr>CAcert := Some cert,
                CAkeys := Some \<lparr>keypair.publicKey = pub, privateKey = priv\<rparr>\<rparr>)"
    if "files fs ?p1 = Some certText" "files fs ?p2 = Some keyPrivateText"
      "files fs ?p3 = Some keyPublicText" "certificateFromPem l certText = Some cert"
      "privateKeyFromPem l keyPrivateText = Some priv" "publicKeyFromPem l keyPublicText = Some pub"
    for r
    using that by (simp add: loaded_decoded [OF that(1-3)])
  show ?thesis
    using a b c [of rt] c [of rt'] by (simp add: first second)
qed

theorem open_loads_existing_root_witness:
  "fst (create pemLib (runtimeAt 1686830400000 (\<lambda>p. False)) ''ca'' (storeWith ''CERTIFICATE 01''))
      = Callback None (loadedCA selfSigned)
   \<and> fst (create pemLib (runtimeAt 0 (\<lambda>p. True)) ''ca''
        (snd (create pemLib (runtimeAt 1686830400000 (\<lambda>p. False)) ''ca'' (storeWith ''CERTIFICATE 01''))))
      = Callback None (loadedCA selfSigned)
   \<and> files (snd (create pemLib (runtimeAt 1686830400000 (\<lambda>p. False)) ''ca'' (storeWith ''CERTIFICATE 01'')))
      = files (storeWith ''CERTIFICATE 01'')"
proof -
  have f: "files (storeWith ''CERTIFICATE 01'') (pathJoin pemLib (pathJoin pemLib ''ca'' ''certs'') ''ca.pem'')
        = Some ''CERTIFICATE 01''
      \<and> files (storeWith ''CERTIFICATE 01'') (pathJoin pemLib (pathJoin pemLib ''ca'' ''keys'') ''ca.private.key'')
        = Some ''PRIVATE k1''
      \<and> files (storeWith ''CERTIFICATE 01'') (pathJoin pemLib (pathJoin pemLib ''ca'' ''keys'') ''ca.public.key'')
        = Some ''PUBLIC k1''
      \<and> certificateFromPem pemLib ''CERTIFICATE 01'' = Some selfSigned
      \<and> privateKeyFromPem pemLib ''PRIVATE k1'' = Some (PrivateKey ''k1'')
      \<and> publicKeyFromPem pemLib ''PUBLIC k1'' = Some (PublicKey ''k1'')"
    by (simp add: storeWith_def pemLib_def)
  have n: "(newCA pemLib ''ca'')\<lparr>CAcert := Some selfSigned,
      CAkeys := Some \<lparr>keypair.publicKey = PublicKey ''k1'', privateKey = PrivateKey ''k1''\<rparr>\<rparr>
      = loadedCA selfSigned"
    by (simp add: newCA_def loadedCA_def pemLib_def)
  show ?thesis
    using open_loads_existing_root [OF storeWith_exists,
        where rt = "runtimeAt 1686830400000 (\<lambda>p. False)" and rt' = "runtimeAt 0 (\<lambda>p. True)"
        and certText = "''CERTIFICATE 01''" and keyPrivateText = "''PRIVATE k1''"
        and keyPublicText = "''PUBLIC k1''" and cert = selfSigned
        and priv = "PrivateKey ''k1''" and pub = "PublicKey ''k1''"] f
    unfolding n by blast
qed

text \<open>
  C5 (corrupt root store). The three files are there and read, and one of the three texts
  does not decode. The \<open>FromPem\<close> call throws inside the final callback of \<open>async.auto\<close>;
  nothing catches it, so the callback of \<open>create\<close> never runs: the caller gets no
  \<open>err\<close>. The read errors of the same function do go through \<open>callback(err)\<close>. No file
  is written, so no new root replaces the stored one.
\<close>

theorem corrupt_root_store_uncaught:
  assumes "files fs (pathJoin l (pathJoin l base ''certs'') ''ca.pem'') = Some certPEM"
    and "files fs (pathJoin l (pathJoin l base ''keys'') ''ca.private.key'') = Some keyPrivatePEM"
    and "files fs (pathJoin l (pathJoin l base ''keys'') ''ca.public.key'') = Some keyPublicPEM"
    and "certificateFromPem l certPEM = None \<or> privateKeyFromPem l keyPrivatePEM = None
          \<or> publicKeyFromPem l keyPublicPEM = None"
  shows "fst (create l rt base fs) = Uncaught PemError
       \<and> files (snd (create l rt base fs)) = files fs"
proof -
  have ex: "existsSync fs (pathJoin l (pathJoin l base ''certs'') ''ca.pem'')"
    using assms(1) by (auto simp: existsSync_def)
  have "loaded l rt base fs = Uncaught PemError"
    using assms(4) by (auto simp: loaded_decoded [OF assms(1-3)] split: option.splits)
  then show ?thesis
    by (simp add: create_existing [OF ex] makeFolders_files)
qed

theorem corrupt_root_store_uncaught_witness:
  "fst (create pemLib (runtimeAt 1686830400000 (\<lambda>p. False)) ''ca'' (storeWith ''garbage'')) = Uncaught PemError
   \<and> files (snd (create pemLib (runtimeAt 1686830400000 (\<lambda>p. False)) ''ca'' (storeWith ''garbage''))) = files (storeWith ''garbage'')"
proof -
  have 1: "files (storeWith ''garbage'') (pathJoin pemLib (pathJoin pemLib ''ca'' ''certs'') ''ca.pem'') = Some ''garbage''"
    by (simp add: storeWith_def pemLib_def)
  have 2: "files (storeWith ''garbage'') (pathJoin pemLib (pathJoin pemLib ''ca'' ''keys'') ''ca.private.key'') = Some ''PRIVATE k1''"
    by (simp add: storeWith_def pemLib_def)
  have 3: "files (storeWith ''garbage'') (pathJoin pemLib (pathJoin pemLib ''ca'' ''keys'') ''ca.public.key'') = Some ''PUBLIC k1''"
    by (simp add: storeWith_def pemLib_def)
  have 4: "certificateFromPem pemLib ''garbage'' = None \<or> privateKeyFromPem pemLib ''PRIVATE k1'' = None
          \<or> publicKeyFromPem pemLib ''PUBLIC k1'' = None"
    by (simp add: pemLib_def)
  show ?thesis
    by (rule corrupt_root_store_uncaught [OF 1 2 3 4])
qed

subsection \<open>Creating a root\<close>

lemma writeFile_fst: "fst (writeFile rt p s fs) = (if writeFails rt p then Some (WriteError p) else None)"
  by (simp add: writeFile_def)

text \<open>
  C7 (root persistence is one unit). With no \<open>ca.pem\<close> in the store and a generated key
  pair, \<open>create\<close> writes the certificate and the two keys; when one of the three writes
  fails, the callback of \<open>create\<close> receives the error of a write that failed.
\<close>

theorem root_persistence_reported:
  assumes "\<not> existsSync (makeFolders (newCA l base) fs) (pathJoin l (pathJoin l base ''certs'') ''ca.pem'')"
    and "generateKeyPair rt = Inr keys"
    and "writeFails rt (pathJoin l (pathJoin l base ''certs'') ''ca.pem'')
         \<or> writeFails rt (pathJoin l (pathJoin l base ''keys'') ''ca.private.key'')
         \<or> writeFails rt (pathJoin l (pathJoin l base ''keys'') ''ca.public.key'')"
  shows "\<exists>p ca. fst (create l rt base fs) = Callback (Some (WriteError p)) ca \<and> writeFails rt p
       \<and> p \<in> {pathJoin l (pathJoin l base ''certs'') ''ca.pem'',
                pathJoin l (pathJoin l base ''keys'') ''ca.private.key'',
                pathJoin l (pathJoin l base ''keys'') ''ca.public.key''}"
proof -
  let ?p1 = "pathJoin l (pathJoin l base ''certs'') ''ca.pem''"
  let ?p2 = "pathJoin l (pathJoin l base ''keys'') ''ca.private.key''"
  let ?p3 = "pathJoin l (pathJoin l base ''keys'') ''ca.public.key''"
  let ?ca = "(newCA l base)\<lparr>CAcert := Some (generateCA_cert rt keys), CAkeys := Some keys\<rparr>"
  have "fst (create l rt base fs) =
      Callback (async_parallel
        [if writeFails rt ?p1 then Some (WriteError ?p1) else None,
         if writeFails rt ?p2 then Some (WriteError ?p2) else None,
         if writeFails rt ?p3 then Some (WriteError ?p3) else None]) ?ca"
    using assms(1,2)
    by (simp add: create_def generateCA_def Let_def newCA_def writeFile_fst)
  then show ?thesis
    using assms(3) by (cases "writeFails rt ?p1"; cases "writeFails rt ?p2") auto
qed

theorem root_persistence_reported_witness:
  "\<exists>p ca. fst (create pemLib (runtimeAt 1686830400000 (\<lambda>p. p = ''ca/keys/ca.public.key'')) ''ca'' emptyStore)
      = Callback (Some (WriteError p)) ca"
proof -
  let ?rt = "runtimeAt 1686830400000 (\<lambda>p. p = ''ca/keys/ca.public.key'')"
  have 1: "\<not> existsSync (makeFolders (newCA pemLib ''ca'') emptyStore)
      (pathJoin pemLib (pathJoin pemLib ''ca'' ''certs'') ''ca.pem'')"
    by (simp add: existsSync_def makeFolders_def mkdirp_def newCA_def emptyStore_def pemLib_def)
  have 2: "generateKeyPair ?rt = Inr \<lparr>keypair.publicKey = PublicKey ''k2'', privateKey = PrivateKey ''k2''\<rparr>"
    by (simp add: runtimeAt_def)
  have 3: "writeFails ?rt (pathJoin pemLib (pathJoin pemLib ''ca'' ''certs'') ''ca.pem'')
         \<or> writeFails ?rt (pathJoin pemLib (pathJoin pemLib ''ca'' ''keys'') ''ca.private.key'')
         \<or> writeFails ?rt (pathJoin pemLib (pathJoin pemLib ''ca'' ''keys'') ''ca.public.key'')"
    by (simp add: runtimeAt_def pemLib_def)
  show ?thesis
    using root_persistence_reported [OF 1 2 3] by blast
qed

subsection \<open>Issuing a leaf certificate\<close>

text \<open>
  With an opened authority and generated keys, an issuance for a nonempty array returns
  exactly when \<open>setExtensions\<close> accepts the extension list; the library instance refuses
  the hosts \<open>1.2.3\<close>, \<open>12345\<close> and \<open>...\<close>, which match the pattern of line 183 and are
  no addresses, and accepts \<open>999.1.1.1\<close>.
\<close>

lemma saveOrLog_eq:
  "saveOrLog rt p s msg st =
    (if writeFails rt p then (add_mset msg (fst st), snd st)
     else (fst st, (snd st)\<lparr>files := (files (snd st))(p \<mapsto> s)\<rparr>))"
  by (simp add: saveOrLog_def writeFile_def)

lemma issue_eq:
  assumes "CAcert ca = Some cacert" "CAkeys ca = Some cakeys" "generateKeyPair rt = Inr keysServer"
  shows "generateServerCertificateKeys l rt ca (HostArray (h # hs)) fs =
    (if setExtensionsThrows l (SERVER_EXTENSIONS @ [SubjectAltName (map altNameOfHost (h # hs))])
     then Inl (ForgeError ''setExtensions'')
     else Inr
       \<lparr>certPem = certificateToPem l (certServer rt cacert cakeys keysServer h (h # hs)),
        keyPrivatePem = privateKeyToPem l (privateKey keysServer),
        consoleError =
          (if writeFails rt (certsFolder ca @ ''/'' @ replaceStars h @ ''.pem'')
           then {#''Failed to save certificate to disk in '' @ certsFolder ca#} else {#}) +
          (if writeFails rt (keysFolder ca @ ''/'' @ replaceStars h @ ''.key'')
           then {#''Failed to save private key to disk in '' @ keysFolder ca#} else {#}) +
          (if writeFails rt (keysFolder ca @ ''/'' @ replaceStars h @ ''.public.key'')
           then {#''Failed to save public key to disk in '' @ keysFolder ca#} else {#}),
        disk = snd (saveOrLog rt (keysFolder ca @ ''/'' @ replaceStars h @ ''.public.key'')
                  (publicKeyToPem l (keypair.publicKey keysServer))
                  (''Failed to save public key to disk in '' @ keysFolder ca)
                (saveOrLog rt (keysFolder ca @ ''/'' @ replaceStars h @ ''.key'')
                  (privateKeyToPem l (privateKey keysServer))
                  (''Failed to save private key to disk in '' @ keysFolder ca)
                (saveOrLog rt (certsFolder ca @ ''/'' @ replaceStars h @ ''.pem'')
                  (certificateToPem l (certServer rt cacert cakeys keysServer h (h # hs)))
                  (''Failed to save certificate to disk in '' @ certsFolder ca) ({#}, fs))))\<rparr>)"
  using assms
  by (simp add: generateServerCertificateKeys_def Let_def saveOrLog_eq)

lemma issue_returns_iff:
  assumes "CAcert ca = Some cacert" "CAkeys ca = Some cakeys" "generateKeyPair rt = Inr keysServer"
  shows "(\<exists>r. generateServerCertificateKeys l rt ca (HostArray (h # hs)) fs = Inr r)
    \<longleftrightarrow> \<not> setExtensionsThrows l (SERVER_EXTENSIONS @ [SubjectAltName (map altNameOfHost (h # hs))])"
  by (simp add: issue_eq [OF assms])

lemma issue_certPem:
  assumes "CAcert ca = Some cacert" "CAkeys ca = Some cakeys" "generateKeyPair rt = Inr keysServer"
    and "generateServerCertificateKeys l rt ca (HostArray (h # hs)) fs = Inr r"
  shows "certPem r = certificateToPem l (certServer rt cacert cakeys keysServer h (h # hs))"
    and "keyPrivatePem r = privateKeyToPem l (privateKey keysServer)"
    and "\<not> setExtensionsThrows l (SERVER_EXTENSIONS @ [SubjectAltName (map altNameOfHost (h # hs))])"
  using assms(4) unfolding issue_eq [OF assms(1-3)] by (auto split: if_splits)

lemma certServer_writeFails:
  "certServer (rt\<lparr>writeFails := f\<rparr>) cacert cakeys keysServer mh hs
    = certServer rt cacert cakeys keysServer mh hs"
  by (simp add: certServer_def certValidity_def)

lemma loadedCA_fields:
  "CAcert (loadedCA c) = Some c"
  "CAkeys (loadedCA c) = Some \<lparr>keypair.publicKey = PublicKey ''k1'', privateKey = PrivateKey ''k1''\<rparr>"
  "certsFolder (loadedCA c) = ''ca/certs''"
  "keysFolder (loadedCA c) = ''ca/keys''"
  by (simp_all add: loadedCA_def)

lemma runtimeAt_keys:
  "generateKeyPair (runtimeAt now f) = Inr \<lparr>keypair.publicKey = PublicKey ''k2'', privateKey = PrivateKey ''k2''\<rparr>"
  by (simp add: runtimeAt_def)

lemma pemLib_issues:
  assumes "\<not> setExtensionsThrows pemLib (SERVER_EXTENSIONS @ [SubjectAltName (map altNameOfHost (h # hs))])"
  shows "\<exists>r. generateServerCertificateKeys pemLib (runtimeAt now f) (loadedCA c) (HostArray (h # hs)) fs = Inr r"
  using assms issue_returns_iff [OF loadedCA_fields(1,2) runtimeAt_keys] by blast

lemma pemLib_accepts_example:
  "\<not> setExtensionsThrows pemLib (SERVER_EXTENSIONS @ [SubjectAltName (map altNameOfHost [''example.com''])])"
  by (simp add: pemLib_def SERVER_EXTENSIONS_def altNameOfHost_def digitOrDot_def)

lemma pemLib_accepts_wildcard:
  "\<not> setExtensionsThrows pemLib (SERVER_EXTENSIONS @ [SubjectAltName (map altNameOfHost [''*.example.com''])])"
  by (simp add: pemLib_def SERVER_EXTENSIONS_def altNameOfHost_def digitOrDot_def)


lemma pemLib_refuses_three_parts:
  "generateServerCertificateKeys pemLib (runtimeAt 1686830400000 (\<lambda>p. False)) (loadedCA selfSigned)
      (HostArray [''1.2.3'']) emptyStore = Inl (ForgeError ''setExtensions'')"
proof -
  have "setExtensionsThrows pemLib (SERVER_EXTENSIONS @ [SubjectAltName (map altNameOfHost [''1.2.3''])])"
    by (simp add: pemLib_def SERVER_EXTENSIONS_def altNameOfHost_def digitOrDot_def fourParts_def)
  then show ?thesis
    by (simp add: generateServerCertificateKeys_def loadedCA_def runtimeAt_def)
qed

lemma pemLib_refusals:
  "setExtensionsThrows pemLib (SERVER_EXTENSIONS @ [SubjectAltName (map altNameOfHost [''12345''])])"
  "setExtensionsThrows pemLib (SERVER_EXTENSIONS @ [SubjectAltName (map altNameOfHost [''...''])])"
  "\<not> setExtensionsThrows pemLib (SERVER_EXTENSIONS @ [SubjectAltName (map altNameOfHost [''999.1.1.1''])])"
  by (simp_all add: pemLib_def SERVER_EXTENSIONS_def altNameOfHost_def digitOrDot_def fourParts_def)


lemma altNamesOf_append: "altNamesOf (es @ es') = altNamesOf es @ altNamesOf es'"
  by (induction es rule: altNamesOf.induct) simp_all

lemma certServer_altNames:
  "altNamesOf (extensions (certServer rt cacert cakeys keysServer mh hs)) = map altNameOfHost hs"
  by (simp add: certServer_def altNamesOf_append SERVER_EXTENSIONS_def)

lemma certServer_commonNames:
  "commonNames (subject (certServer rt cacert cakeys keysServer mh hs)) = [mh]"
  by (simp add: certServer_def SERVER_ATTRIBUTES_def)

lemma replaceStars_map: "replaceStars h = map (\<lambda>c. if c = CHR ''*'' then CHR ''_'' else c) h"
  by (induction h) simp_all

lemma leafPaths_distinct: "distinct (leafPaths ca h)"
proof -
  have 1: "xs @ ''.pem'' \<noteq> ys @ ''.key''" for xs ys :: string
  proof
    assume "xs @ ''.pem'' = ys @ ''.key''"
    then have "last (xs @ ''.pem'') = last (ys @ ''.key'')" by simp
    then show False by simp
  qed
  have "certsFolder ca @ ''/'' @ replaceStars h @ ''.pem'' = (certsFolder ca @ ''/'' @ replaceStars h) @ ''.pem''"
    and "keysFolder ca @ ''/'' @ replaceStars h @ ''.key'' = (keysFolder ca @ ''/'' @ replaceStars h) @ ''.key''"
    and "keysFolder ca @ ''/'' @ replaceStars h @ ''.public.key''
          = (keysFolder ca @ ''/'' @ replaceStars h @ ''.public'') @ ''.key''"
    by simp_all
  then show ?thesis
    unfolding leafPaths_def using 1 by (simp del: append_assoc)
qed

lemma issue_disk:
  assumes "CAcert ca = Some cacert" "CAkeys ca = Some cakeys" "generateKeyPair rt = Inr keysServer"
    and "generateServerCertificateKeys l rt ca (HostArray (h # hs)) fs = Inr r"
  shows "dom (files (disk r)) \<subseteq> dom (files fs) \<union> set (leafPaths ca h)"
    and "\<not> writeFails rt (certsFolder ca @ ''/'' @ replaceStars h @ ''.pem'') \<longrightarrow>
          files (disk r) (certsFolder ca @ ''/'' @ replaceStars h @ ''.pem'') = Some (certPem r)"
    and "\<not> writeFails rt (keysFolder ca @ ''/'' @ replaceStars h @ ''.key'') \<longrightarrow>
          files (disk r) (keysFolder ca @ ''/'' @ replaceStars h @ ''.key'') = Some (keyPrivatePem r)"
    and "\<not> writeFails rt (keysFolder ca @ ''/'' @ replaceStars h @ ''.public.key'') \<longrightarrow>
          files (disk r) (keysFolder ca @ ''/'' @ replaceStars h @ ''.public.key'')
            = Some (publicKeyToPem l (keypair.publicKey keysServer))"
proof -
  let ?p1 = "certsFolder ca @ ''/'' @ replaceStars h @ ''.pem''"
  let ?p2 = "keysFolder ca @ ''/'' @ replaceStars h @ ''.key''"
  let ?p3 = "keysFolder ca @ ''/'' @ replaceStars h @ ''.public.key''"
  have d: "?p1 \<noteq> ?p2" "?p1 \<noteq> ?p3" "?p2 \<noteq> ?p3"
    using leafPaths_distinct [of ca h] by (simp_all add: leafPaths_def)
  note c = issue_certPem(1) [OF assms] and k = issue_certPem(2) [OF assms]
  have f: "disk r = snd (saveOrLog rt ?p3 (publicKeyToPem l (keypair.publicKey keysServer))
                  (''Failed to save public key to disk in '' @ keysFolder ca)
                (saveOrLog rt ?p2 (privateKeyToPem l (privateKey keysServer))
                  (''Failed to save private key to disk in '' @ keysFolder ca)
                (saveOrLog rt ?p1 (certificateToPem l (certServer rt cacert cakeys keysServer h (h # hs)))
                  (''Failed to save certificate to disk in '' @ certsFolder ca) ({#}, fs))))"
    using assms(4) unfolding issue_eq [OF assms(1-3)] by (auto split: if_splits)
  show "dom (files (disk r)) \<subseteq> dom (files fs) \<union> set (leafPaths ca h)"
    unfolding f by (auto simp: saveOrLog_eq leafPaths_def split: if_splits)
  show "\<not> writeFails rt ?p1 \<longrightarrow> files (disk r) ?p1 = Some (certPem r)"
    unfolding f c using d by (simp add: saveOrLog_eq)
  show "\<not> writeFails rt ?p2 \<longrightarrow> files (disk r) ?p2 = Some (keyPrivatePem r)"
    unfolding f k using d by (simp add: saveOrLog_eq)
  show "\<not> writeFails rt ?p3 \<longrightarrow> files (disk r) ?p3 = Some (publicKeyToPem l (keypair.publicKey keysServer))"
    unfolding f using d by (simp add: saveOrLog_eq)
qed

text \<open>
  C2 (chain validity). When an issuance returns, the leaf is signed with the private key
  of the authority under SHA-256, and its issuer is the \<^emph>\<open>issuer\<close> of the certificate
  read from \<open>ca.pem\<close> (line 178: \<open>this.CAcert.issuer.attributes\<close>), not its subject. For
  a root made by generateCA the two are the same list; for a stored certificate that
  another authority issued they differ, and the leaf then names an issuer that did not
  sign it.
\<close>

theorem leaf_issuer_is_root_issuer:
  assumes "CAcert ca = Some cacert" "CAkeys ca = Some cakeys" "generateKeyPair rt = Inr keysServer"
    and "generateServerCertificateKeys l rt ca (HostArray (h # hs)) fs = Inr r"
    and "cert = certServer rt cacert cakeys keysServer h (h # hs)"
  shows "certPem r = certificateToPem l cert
       \<and> issuer cert = issuer cacert
       \<and> signature cert = Signature (privateKey cakeys) SHA256"
  using issue_certPem(1) [OF assms(1-4)] assms(5)
  by (simp add: certServer_def)

theorem leaf_issuer_is_root_issuer_witness:
  "fst (create pemLib (runtimeAt 1686830400000 (\<lambda>p. False)) ''ca'' (storeWith ''CERTIFICATE 02''))
      = Callback None (loadedCA crossSigned)
   \<and> (\<exists>r. generateServerCertificateKeys pemLib (runtimeAt 1686830400000 (\<lambda>p. False))
          (loadedCA crossSigned) (HostArray [''example.com'']) (storeWith ''CERTIFICATE 02'') = Inr r
        \<and> certPem r = certificateToPem pemLib
            (certServer (runtimeAt 1686830400000 (\<lambda>p. False)) crossSigned
              \<lparr>keypair.publicKey = PublicKey ''k1'', privateKey = PrivateKey ''k1''\<rparr>
              \<lparr>keypair.publicKey = PublicKey ''k2'', privateKey = PrivateKey ''k2''\<rparr>
              ''example.com'' [''example.com'']))
   \<and> issuer (certServer (runtimeAt 1686830400000 (\<lambda>p. False)) crossSigned
        \<lparr>keypair.publicKey = PublicKey ''k1'', privateKey = PrivateKey ''k1''\<rparr>
        \<lparr>keypair.publicKey = PublicKey ''k2'', privateKey = PrivateKey ''k2''\<rparr>
        ''example.com'' [''example.com''])
      = [Name ''commonName'' ''Corporate Root'']
   \<and> issuer (certServer (runtimeAt 1686830400000 (\<lambda>p. False)) crossSigned
        \<lparr>keypair.publicKey = PublicKey ''k1'', privateKey = PrivateKey ''k1''\<rparr>
        \<lparr>keypair.publicKey = PublicKey ''k2'', privateKey = PrivateKey ''k2''\<rparr>
        ''example.com'' [''example.com''])
      \<noteq> subject crossSigned"
proof -
  let ?rt = "runtimeAt 1686830400000 (\<lambda>p. False)"
  have 0: "fst (create pemLib ?rt ''ca'' (storeWith ''CERTIFICATE 02'')) = Callback None (loadedCA crossSigned)"
  proof -
    have "certificateFromPem pemLib ''CERTIFICATE 02'' = Some crossSigned"
      by (simp add: pemLib_def)
    then show ?thesis
      by (simp add: create_existing [OF storeWith_exists] storeWith_loaded)
  qed
  obtain r where r: "generateServerCertificateKeys pemLib ?rt (loadedCA crossSigned)
          (HostArray [''example.com'']) (storeWith ''CERTIFICATE 02'') = Inr r"
    using pemLib_issues [OF pemLib_accepts_example] by blast
  have 4: "issuer crossSigned = [Name ''commonName'' ''Corporate Root'']"
    "issuer crossSigned \<noteq> subject crossSigned"
    by (simp_all add: crossSigned_def CA_ATTRIBUTES_def)
  show ?thesis
    using leaf_issuer_is_root_issuer [OF loadedCA_fields(1,2) runtimeAt_keys r refl] r 0 4
    by auto
qed



text \<open>
  C6 (leaf persistence is best effort). When an issuance returns, \<open>cb\<close> has run with the
  PEM text of the certificate and of the private key of the server; each failed write
  has left its line on \<open>console.error\<close>, in no fixed order; and under every other pattern
  \<open>f\<close> of failing writes the issuance returns too, with the same two arguments of \<open>cb\<close>.
\<close>

theorem leaf_persistence_best_effort:
  assumes "CAcert ca = Some cacert" "CAkeys ca = Some cakeys" "generateKeyPair rt = Inr keysServer"
    and "generateServerCertificateKeys l rt ca (HostArray (h # hs)) fs = Inr r"
  shows "certPem r = certificateToPem l (certServer rt cacert cakeys keysServer h (h # hs))
       \<and> keyPrivatePem r = privateKeyToPem l (privateKey keysServer)
       \<and> consoleError r =
          (if writeFails rt (certsFolder ca @ ''/'' @ replaceStars h @ ''.pem'')
           then {#''Failed to save certificate to disk in '' @ certsFolder ca#} else {#}) +
          (if writeFails rt (keysFolder ca @ ''/'' @ replaceStars h @ ''.key'')
           then {#''Failed to save private key to disk in '' @ keysFolder ca#} else {#}) +
          (if writeFails rt (keysFolder ca @ ''/'' @ replaceStars h @ ''.public.key'')
           then {#''Failed to save public key to disk in '' @ keysFolder ca#} else {#})
       \<and> (\<forall>f. \<exists>r'. generateServerCertificateKeys l (rt\<lparr>writeFails := f\<rparr>) ca (HostArray (h # hs)) fs = Inr r'
              \<and> certPem r' = certPem r \<and> keyPrivatePem r' = keyPrivatePem r)"
proof -
  have ok: "\<not> setExtensionsThrows l (SERVER_EXTENSIONS @ [SubjectAltName (map altNameOfHost (h # hs))])"
    using issue_returns_iff [OF assms(1-3), of l h hs fs] assms(4) by blast
  have a: "certPem r = certificateToPem l (certServer rt cacert cakeys keysServer h (h # hs))"
    and b: "keyPrivatePem r = privateKeyToPem l (privateKey keysServer)"
    and c: "consoleError r =
          (if writeFails rt (certsFolder ca @ ''/'' @ replaceStars h @ ''.pem'')
           then {#''Failed to save certificate to disk in '' @ certsFolder ca#} else {#}) +
          (if writeFails rt (keysFolder ca @ ''/'' @ replaceStars h @ ''.key'')
           then {#''Failed to save private key to disk in '' @ keysFolder ca#} else {#}) +
          (if writeFails rt (keysFolder ca @ ''/'' @ replaceStars h @ ''.public.key'')
           then {#''Failed to save public key to disk in '' @ keysFolder ca#} else {#})"
    using assms(4) ok unfolding issue_eq [OF assms(1-3)] by auto
  have d: "\<exists>r'. generateServerCertificateKeys l (rt\<lparr>writeFails := f\<rparr>) ca (HostArray (h # hs)) fs = Inr r'
      \<and> certPem r' = certPem r \<and> keyPrivatePem r' = keyPrivatePem r" for f
  proof -
    have k: "generateKeyPair (rt\<lparr>writeFails := f\<rparr>) = Inr keysServer"
      using assms(3) by simp
    show ?thesis
      using ok unfolding issue_eq [OF assms(1,2) k] a b by (simp add: certServer_writeFails)
  qed
  show ?thesis
    using a b c d by blast
qed

theorem leaf_persistence_best_effort_witness:
  "\<exists>r. generateServerCertificateKeys pemLib (runtimeAt 1686830400000 (\<lambda>p. True)) (loadedCA selfSigned)
          (HostArray [''example.com'']) (storeWith ''CERTIFICATE 01'') = Inr r
     \<and> keyPrivatePem r = ''PRIVATE k2''
     \<and> consoleError r = {#''Failed to save certificate to disk in ca/certs'',
          ''Failed to save private key to disk in ca/keys'',
          ''Failed to save public key to disk in ca/keys''#}"
proof -
  let ?rt = "runtimeAt 1686830400000 (\<lambda>p. True)"
  obtain r where r: "generateServerCertificateKeys pemLib ?rt (loadedCA selfSigned)
          (HostArray [''example.com'']) (storeWith ''CERTIFICATE 01'') = Inr r"
    using pemLib_issues [OF pemLib_accepts_example] by blast
  have w: "writeFails ?rt p" for p
    by (simp add: runtimeAt_def)
  have k: "privateKeyToPem pemLib (PrivateKey ''k2'') = ''PRIVATE k2''"
    by (simp add: pemLib_def)
  show ?thesis
    using leaf_persistence_best_effort [OF loadedCA_fields(1,2) runtimeAt_keys r] r
    by (auto simp: w k loadedCA_fields)
qed

text \<open>
  C9 (file names). The file name replaces each \<open>*\<close> of the main host by \<open>_\<close> and leaves
  every other character and the length alone; \<open>*.example.com\<close> gives \<open>_.example.com\<close>.
  When an issuance returns, it has touched only the three paths built from that name,
  and each write that succeeded has stored its PEM text there. The certificate itself
  carries the host names as given: the common name is the main host and the alternative
  names are those of the host array.
\<close>

theorem cache_file_name:
  assumes "CAcert ca = Some cacert" "CAkeys ca = Some cakeys" "generateKeyPair rt = Inr keysServer"
    and "generateServerCertificateKeys l rt ca (HostArray (h # hs)) fs = Inr r"
    and "cert = certServer rt cacert cakeys keysServer h (h # hs)"
  shows "length (replaceStars h) = length h
       \<and> (\<forall>i < length h. replaceStars h ! i = (if h ! i = CHR ''*'' then CHR ''_'' else h ! i))
       \<and> replaceStars ''*.example.com'' = ''_.example.com''
       \<and> certPem r = certificateToPem l cert
       \<and> dom (files (disk r)) \<subseteq> dom (files fs) \<union>
            {certsFolder ca @ ''/'' @ replaceStars h @ ''.pem'',
             keysFolder ca @ ''/'' @ replaceStars h @ ''.key'',
             keysFolder ca @ ''/'' @ replaceStars h @ ''.public.key''}
       \<and> (\<not> writeFails rt (certsFolder ca @ ''/'' @ replaceStars h @ ''.pem'') \<longrightarrow>
            files (disk r) (certsFolder ca @ ''/'' @ replaceStars h @ ''.pem'') = Some (certPem r))
       \<and> (\<not> writeFails rt (keysFolder ca @ ''/'' @ replaceStars h @ ''.key'') \<longrightarrow>
            files (disk r) (keysFolder ca @ ''/'' @ replaceStars h @ ''.key'') = Some (keyPrivatePem r))
       \<and> (\<not> writeFails rt (keysFolder ca @ ''/'' @ replaceStars h @ ''.public.key'') \<longrightarrow>
            files (disk r) (keysFolder ca @ ''/'' @ replaceStars h @ ''.public.key'')
              = Some (publicKeyToPem l (keypair.publicKey keysServer)))
       \<and> commonNames (subject cert) = [h]
       \<and> altNamesOf (extensions cert) = map altNameOfHost (h # hs)"
proof -
  have a: "length (replaceStars h) = length h"
    by (simp add: replaceStars_map)
  have b: "\<forall>i < length h. replaceStars h ! i = (if h ! i = CHR ''*'' then CHR ''_'' else h ! i)"
    by (simp add: replaceStars_map)
  have c: "replaceStars ''*.example.com'' = ''_.example.com''"
    by simp
  have p: "certPem r = certificateToPem l cert"
    unfolding assms(5) by (rule issue_certPem(1) [OF assms(1-4)])
  note d = issue_disk [OF assms(1-4)]
  have e: "commonNames (subject cert) = [h]" "altNamesOf (extensions cert) = map altNameOfHost (h # hs)"
    unfolding assms(5) by (rule certServer_commonNames, rule certServer_altNames)
  have "dom (files (disk r)) \<subseteq> dom (files fs) \<union>
                 {certsFolder ca @ ''/'' @ replaceStars h @ ''.pem'',
                  keysFolder ca @ ''/'' @ replaceStars h @ ''.key'',
                  keysFolder ca @ ''/'' @ replaceStars h @ ''.public.key''}"
    using d(1) by (simp add: leafPaths_def)
  then show ?thesis
    using a b c p d(2-4) e by blast
qed

theorem cache_file_name_witness:
  "\<exists>r. generateServerCertificateKeys pemLib (runtimeAt 1686830400000 (\<lambda>p. False)) (loadedCA selfSigned)
          (HostArray [''*.example.com'']) emptyStore = Inr r
     \<and> files (disk r) ''ca/certs/_.example.com.pem'' = Some (certPem r)
     \<and> files (disk r) ''ca/keys/_.example.com.key'' = Some ''PRIVATE k2''
     \<and> files (disk r) ''ca/keys/_.example.com.public.key'' = Some ''PUBLIC k2''
     \<and> dom (files (disk r)) \<subseteq> {''ca/certs/_.example.com.pem'', ''ca/keys/_.example.com.key'',
          ''ca/keys/_.example.com.public.key''}"
proof -
  let ?rt = "runtimeAt 1686830400000 (\<lambda>p. False)"
  obtain r where r: "generateServerCertificateKeys pemLib ?rt (loadedCA selfSigned)
          (HostArray [''*.example.com'']) emptyStore = Inr r"
    using pemLib_issues [OF pemLib_accepts_wildcard] by blast
  have 4: "\<not> writeFails ?rt p" for p
    by (simp add: runtimeAt_def)
  have 5: "certsFolder (loadedCA selfSigned) @ ''/'' @ replaceStars ''*.example.com'' @ ''.pem''
        = ''ca/certs/_.example.com.pem''"
    "keysFolder (loadedCA selfSigned) @ ''/'' @ replaceStars ''*.example.com'' @ ''.key''
        = ''ca/keys/_.example.com.key''"
    "keysFolder (loadedCA selfSigned) @ ''/'' @ replaceStars ''*.example.com'' @ ''.public.key''
        = ''ca/keys/_.example.com.public.key''"
    by (simp_all add: loadedCA_def)
  have 6: "publicKeyToPem pemLib (keypair.publicKey \<lparr>keypair.publicKey = PublicKey ''k2'', privateKey = PrivateKey ''k2''\<rparr>)
        = ''PUBLIC k2''"
    by (simp add: pemLib_def)
  have 7: "dom (files emptyStore) = {}"
    by (simp add: emptyStore_def)
  have f: "files (disk r) ''ca/certs/_.example.com.pem'' = Some (certPem r)"
      "files (disk r) ''ca/keys/_.example.com.key'' = Some (keyPrivatePem r)"
      "files (disk r) ''ca/keys/_.example.com.public.key'' = Some ''PUBLIC k2''"
    and d: "dom (files (disk r)) \<subseteq> {''ca/certs/_.example.com.pem'', ''ca/keys/_.example.com.key'',
          ''ca/keys/_.example.com.public.key''}"
    using cache_file_name [OF loadedCA_fields(1,2) runtimeAt_keys r refl] 4
    unfolding 5 6 7 by auto
  have "keyPrivatePem r = ''PRIVATE k2''"
    using issue_certPem(2) [OF loadedCA_fields(1,2) runtimeAt_keys r] by (simp add: pemLib_def)
  then show ?thesis
    using r f d by auto
qed

text \<open>
  C10 (a string for \<open>hosts\<close>). Line 165 takes a string as the main host, but line 183
  calls \<open>hosts.map\<close>, which a string does not have: the call throws before any
  certificate text is made, any file written or \<open>cb\<close> run. The empty array fails too
  (in \<open>setSubject\<close>, its main host being \<open>undefined\<close>). So an issuance that returns was
  called with a nonempty array; and with an opened authority and generated keys it does
  return for a nonempty array whose extension list \<open>setExtensions\<close> accepts.
\<close>

theorem string_hosts_fail:
  "mainHost (HostString s) = Some s
   \<and> (\<exists>e. generateServerCertificateKeys l rt ca (HostString s) fs = Inl e)
   \<and> (\<exists>e. generateServerCertificateKeys l rt ca (HostArray []) fs = Inl e)
   \<and> (generateServerCertificateKeys l rt ca hsts fs = Inr r \<longrightarrow> (\<exists>h t. hsts = HostArray (h # t)))
   \<and> (CAcert ca = Some cacert \<and> generateKeyPair rt = Inr keysServer \<longrightarrow>
        generateServerCertificateKeys l rt ca (HostString s) fs
          = Inl (TypeError ''hosts.map is not a function''))
   \<and> (CAcert ca = Some cacert \<and> CAkeys ca = Some cakeys \<and> generateKeyPair rt = Inr keysServer
        \<and> \<not> setExtensionsThrows l (SERVER_EXTENSIONS @ [SubjectAltName (map altNameOfHost (h # t))]) \<longrightarrow>
        (\<exists>r'. generateServerCertificateKeys l rt ca (HostArray (h # t)) fs = Inr r'))"
proof -
  have a: "\<exists>e. generateServerCertificateKeys l rt ca (HostString s) fs = Inl e"
    by (simp add: generateServerCertificateKeys_def split: sum.splits option.splits)
  have b: "\<exists>e. generateServerCertificateKeys l rt ca (HostArray []) fs = Inl e"
    by (simp add: generateServerCertificateKeys_def split: sum.splits option.splits)
  have c: "\<exists>h t. hsts = HostArray (h # t)" if "generateServerCertificateKeys l rt ca hsts fs = Inr r"
  proof (cases hsts)
    case (HostArray xs)
    show ?thesis
    proof (cases xs)
      case Nil
      with b HostArray that show ?thesis by auto
    next
      case (Cons x t)
      with HostArray show ?thesis by simp
    qed
  next
    case (HostString x)
    have "\<exists>e. generateServerCertificateKeys l rt ca (HostString x) fs = Inl e"
      by (simp add: generateServerCertificateKeys_def split: sum.splits option.splits)
    with HostString that show ?thesis by auto
  qed
  have d: "generateServerCertificateKeys l rt ca (HostString s) fs
          = Inl (TypeError ''hosts.map is not a function'')"
    if "CAcert ca = Some cacert" "generateKeyPair rt = Inr keysServer"
    using that by (simp add: generateServerCertificateKeys_def)
  have e: "\<exists>r'. generateServerCertificateKeys l rt ca (HostArray (h # t)) fs = Inr r'"
    if "CAcert ca = Some cacert" "CAkeys ca = Some cakeys" "generateKeyPair rt = Inr keysServer"
      "\<not> setExtensionsThrows l (SERVER_EXTENSIONS @ [SubjectAltName (map altNameOfHost (h # t))])"
    using issue_returns_iff [OF that(1-3), of l h t fs] that(4) by blast
  show ?thesis
    using a b c d e by simp
qed

theorem string_hosts_fail_witness:
  "generateServerCertificateKeys pemLib (runtimeAt 1686830400000 (\<lambda>p. False)) (loadedCA selfSigned)
      (HostString ''example.com'') (storeWith ''CERTIFICATE 01'')
    = Inl (TypeError ''hosts.map is not a function'')
   \<and> (\<exists>r. generateServerCertificateKeys pemLib (runtimeAt 1686830400000 (\<lambda>p. False)) (loadedCA selfSigned)
      (HostArray [''example.com'']) (storeWith ''CERTIFICATE 01'') = Inr r)"
proof -
  let ?rt = "runtimeAt 1686830400000 (\<lambda>p. False)"
  let ?k1 = "\<lparr>keypair.publicKey = PublicKey ''k1'', privateKey = PrivateKey ''k1''\<rparr>"
  let ?k2 = "\<lparr>keypair.publicKey = PublicKey ''k2'', privateKey = PrivateKey ''k2''\<rparr>"
  have h: "CAcert (loadedCA selfSigned) = Some selfSigned \<and> CAkeys (loadedCA selfSigned) = Some ?k1
      \<and> generateKeyPair ?rt = Inr ?k2"
    by (simp add: loadedCA_fields runtimeAt_keys)
  show ?thesis
    using h pemLib_accepts_example
      string_hosts_fail [where s = "''example.com''" and l = pemLib and rt = ?rt
        and ca = "loadedCA selfSigned" and fs = "storeWith ''CERTIFICATE 01''"
        and cacert = selfSigned and cakeys = ?k1 and keysServer = ?k2
        and h = "''example.com''" and t = "[]"]
    by simp
qed

subsection \<open>The validity window\<close>

lemma div_succ:
  fixes a n :: int
  assumes n: "0 < n"
  shows "(a + 1) div n = a div n + (if (a + 1) mod n = 0 then 1 else 0)"
proof -
  define r where "r = a mod n"
  have r: "0 \<le> r" "r < n" using n by (simp_all add: r_def)
  have a: "a + 1 = (r + 1) + (a div n) * n" by (simp add: r_def)
  have d: "(a + 1) div n = a div n + (r + 1) div n"
    unfolding a using n by simp
  have m: "(a + 1) mod n = (r + 1) mod n"
    unfolding a by simp
  show ?thesis
  proof (cases "r + 1 = n")
    case True
    then show ?thesis using d m n by simp
  next
    case False
    then have "r + 1 < n" "0 \<le> r + 1" "r + 1 \<noteq> 0" using r by auto
    then show ?thesis using d m by simp
  qed
qed

lemma mod_shift:
  fixes y n :: int
  shows "(y - k * n) mod n = 0 \<longleftrightarrow> y mod n = 0"
  by (metis mod_mult_self1 mult_minus_left uminus_add_conv_diff add.commute)

lemma mod_coarser:
  fixes y m n :: int
  assumes "y mod n = 0" "m dvd n"
  shows "y mod m = 0"
proof -
  from assms(1) have "n dvd y" by (simp add: mod_eq_0_iff_dvd)
  with assms(2) have "m dvd y" by (rule dvd_trans)
  then show ?thesis by (simp add: mod_eq_0_iff_dvd)
qed

lemma DayFromYear_Suc: "DayFromYear (y + 1) = DayFromYear y + DaysInYear y"
proof -
  have a: "(y + 1 - 1969) div 4 = (y - 1969) div 4 + (if y mod 4 = 0 then 1 else 0)"
    using div_succ [of 4 "y - 1969"] mod_shift [of y 492 4] by (simp add: algebra_simps)
  have b: "(y + 1 - 1901) div 100 = (y - 1901) div 100 + (if y mod 100 = 0 then 1 else 0)"
    using div_succ [of 100 "y - 1901"] mod_shift [of y 19 100] by (simp add: algebra_simps)
  have c: "(y + 1 - 1601) div 400 = (y - 1601) div 400 + (if y mod 400 = 0 then 1 else 0)"
    using div_succ [of 400 "y - 1601"] mod_shift [of y 4 400] by (simp add: algebra_simps)
  show ?thesis
    unfolding DayFromYear_def DaysInYear_def a b c
    using mod_coarser [of y 400 100] mod_coarser [of y 100 4] by auto
qed

lemma DaysInYear_cases: "DaysInYear y = 365 \<or> DaysInYear y = 366"
  by (simp add: DaysInYear_def)

lemma DayFromYear_1970: "DayFromYear 1970 = 0"
  by (simp add: DayFromYear_def)

lemma DayFromYear_upper: "0 \<le> k \<Longrightarrow> DayFromYear (1970 + k) \<le> 366 * k"
proof (induction k rule: int_ge_induct)
  case base
  show ?case by (simp add: DayFromYear_1970)
next
  case (step i)
  have "DayFromYear (1970 + (i + 1)) = DayFromYear (1970 + i) + DaysInYear (1970 + i)"
    using DayFromYear_Suc [of "1970 + i"] by (simp add: algebra_simps)
  then show ?case using step DaysInYear_cases [of "1970 + i"] by auto
qed

lemma DayFromYear_lower: "k \<le> 0 \<Longrightarrow> DayFromYear (1970 + k) \<le> 365 * k"
proof (induction k rule: int_le_induct)
  case base
  show ?case by (simp add: DayFromYear_1970)
next
  case (step i)
  have "DayFromYear (1970 + i) = DayFromYear (1970 + (i - 1)) + DaysInYear (1970 + (i - 1))"
    using DayFromYear_Suc [of "1970 + (i - 1)"] by (simp add: algebra_simps)
  then show ?case using step DaysInYear_cases [of "1970 + (i - 1)"] by auto
qed

lemma yearUp_bounds:
  "DayFromYear y \<le> d \<Longrightarrow> DayFromYear (yearUp y d) \<le> d \<and> d < DayFromYear (yearUp y d + 1)"
proof (induction y d rule: yearUp.induct)
  case (1 y d)
  show ?case
  proof (cases "DayFromYear (y + 1) \<le> d")
    case True
    with 1 show ?thesis by (simp add: yearUp.simps [of y d])
  next
    case False
    with 1 show ?thesis by (simp add: yearUp.simps [of y d])
  qed
qed

lemma start_below: "DayFromYear (1970 + (if 0 \<le> d then d div 366 else d div 365)) \<le> d"
proof (cases "0 \<le> d")
  case True
  have "DayFromYear (1970 + d div 366) \<le> 366 * (d div 366)"
    using True by (intro DayFromYear_upper) simp
  also have "\<dots> \<le> d"
    using mult_div_mod_eq [of 366 d] pos_mod_sign [of 366 d] by linarith
  finally show ?thesis using True by simp
next
  case False
  then have "d div 365 \<le> 0"
    using mult_div_mod_eq [of 365 d] pos_mod_sign [of 365 d] by linarith
  then have "DayFromYear (1970 + d div 365) \<le> 365 * (d div 365)"
    by (rule DayFromYear_lower)
  also have "\<dots> \<le> d"
    using mult_div_mod_eq [of 365 d] pos_mod_sign [of 365 d] by linarith
  finally show ?thesis using False by simp
qed

lemma YearFromTime_bounds:
  "DayFromYear (YearFromTime t) \<le> Day t
   \<and> Day t < DayFromYear (YearFromTime t) + DaysInYear (YearFromTime t)"
  using yearUp_bounds [OF start_below, of "Day t"]
  by (simp add: YearFromTime_def YearFromDay_def DayFromYear_Suc)

lemma DayWithinYear_bounds:
  "0 \<le> DayWithinYear t \<and> DayWithinYear t < 365 + InLeapYear t"
  using YearFromTime_bounds [of t] DaysInYear_cases [of "YearFromTime t"]
  by (auto simp: DayWithinYear_def InLeapYear_def)

lemma MonthFromTime_range: "0 \<le> MonthFromTime t \<and> MonthFromTime t \<le> 11"
  by (simp add: MonthFromTime_def Let_def)

lemma MakeDay_of_time:
  "MakeDay (YearFromTime t) (MonthFromTime t) (DateFromTime t + k) = Day t + k"
proof -
  let ?d = "DayWithinYear t" and ?l = "InLeapYear t"
  have l: "(if DaysInYear (YearFromTime t) = 366 then 1 else 0) = ?l"
    by (simp add: InLeapYear_def)
  have m: "MonthFromTime t div 12 = 0" "MonthFromTime t mod 12 = MonthFromTime t"
    using MonthFromTime_range [of t] by simp_all
  have "MonthStart (YearFromTime t) (MonthFromTime t) + DateFromTime t - 1 = ?d"
    using DayWithinYear_bounds [of t]
    unfolding MonthStart_def DateFromTime_def MonthFromTime_def l Let_def
    by (auto split: if_splits)
  then show ?thesis
    by (simp add: MakeDay_def m Let_def DayWithinYear_def)
qed

lemma Day_split: "Day t * msPerDay + TimeWithinDay t = t"
  by (simp add: Day_def TimeWithinDay_def)





lemma setFullYear_same:
  assumes "y = YearFromTime (LocalTime tza t)"
  shows "setFullYear tza t y = UTC tza (LocalTime tza t)"
proof -
  let ?lt = "LocalTime tza t"
  have "MakeDay y (MonthFromTime ?lt) (DateFromTime ?lt) = Day ?lt"
    using MakeDay_of_time [of ?lt 0] assms by simp
  then show ?thesis
    using Day_split [of ?lt]
    by (simp add: setFullYear_def Let_def MakeDate_def)
qed


lemma certValidity_notAfter:
  "notAfter (certValidity rt)
    = setFullYear (LocalTZA rt) (now2 rt) (getFullYear (LocalTZA rt) (notBefore (certValidity rt)) + 1)"
  by (simp add: certValidity_def Let_def)

text \<open>
  On local 1 January \<open>notBefore\<close> lies in the year before, and moving the second clock
  reading to the year after that one leaves its local time where it is.
\<close>

lemma certValidity_new_year:
  assumes "getFullYear (LocalTZA rt) (notBefore (certValidity rt)) + 1 = getFullYear (LocalTZA rt) (now2 rt)"
  shows "notAfter (certValidity rt) = UTC (LocalTZA rt) (LocalTime (LocalTZA rt) (now2 rt))"
  unfolding certValidity_notAfter assms
  by (rule setFullYear_same) (simp add: getFullYear_def)





lemma certValidity_20240101:
  "certValidity (runtimeAt 1704110400000 f) = \<lparr>notBefore = 1704024000000, notAfter = 1704110400000\<rparr>"
proof -
  have "setDate (\<lambda>t isUTC. 0) 1704110400000 (getDate (\<lambda>t isUTC. 0) 1704110400000 - 1) = 1704024000000"
    by code_simp
  moreover have "setFullYear (\<lambda>t isUTC. 0) 1704110400000 (getFullYear (\<lambda>t isUTC. 0) 1704024000000 + 1)
      = 1704110400000"
    by code_simp
  ultimately show ?thesis
    by (simp add: certValidity_def runtimeAt_def)
qed




subsection \<open>Serial numbers\<close>

lemma lt16_cases:
  "d < 16 \<Longrightarrow> d \<in> {0, 1, 2, 3, 4, 5, 6, 7, 8, 9, 10, 11, 12, 13, 14, 15::nat}"
  by simp arith

lemma hexDigit_in: "d < 16 \<Longrightarrow> hexDigit d \<in> hexChars"
  by (drule lt16_cases) (auto simp: hexDigit_def hexChars_def)

lemma hexValue_hexDigit: "d < 16 \<Longrightarrow> hexValue (hexDigit d) = d"
  by (drule lt16_cases) (auto simp: hexDigit_def hexValue_def)

lemma toString16_chars: "set (toString16 n) \<subseteq> hexChars"
proof (induction n rule: toString16.induct)
  case (1 n)
  show ?case
  proof (cases "n < 16")
    case True
    then show ?thesis by (simp add: toString16.simps [of n] hexDigit_in)
  next
    case False
    with 1 show ?thesis by (simp add: toString16.simps [of n] hexDigit_in)
  qed
qed

lemma toString16_length: "n < 16 ^ k \<Longrightarrow> 0 < k \<Longrightarrow> length (toString16 n) \<le> k"
proof (induction n arbitrary: k rule: toString16.induct)
  case (1 n)
  show ?case
  proof (cases "n < 16")
    case True
    with 1 show ?thesis by (simp add: toString16.simps [of n])
  next
    case False
    obtain j where k: "k = Suc j" using 1(3) by (cases k) auto
    have j: "0 < j" using False 1(2) k by (cases j) auto
    have "n div 16 < 16 ^ j" using 1(2) k by (simp add: less_mult_imp_div_less mult.commute)
    then have "length (toString16 (n div 16)) \<le> j" using 1(1) False j by simp
    then show ?thesis using False k by (simp add: toString16.simps [of n])
  qed
qed

lemma fromString16_append: "fromString16 (s @ [c]) = 16 * fromString16 s + hexValue c"
  by (simp add: fromString16_def)

lemma fromString16_toString16: "fromString16 (toString16 n) = n"
proof (induction n rule: toString16.induct)
  case (1 n)
  show ?case
  proof (cases "n < 16")
    case True
    then show ?thesis by (simp add: toString16.simps [of n] fromString16_def hexValue_hexDigit)
  next
    case False
    with 1 show ?thesis
      by (simp add: toString16.simps [of n] fromString16_append hexValue_hexDigit)
  qed
qed

lemma fromString16_zeros: "fromString16 (replicate m CHR ''0'' @ s) = fromString16 s"
proof -
  have "foldl (\<lambda>a c. 16 * a + hexValue c) 0 (replicate m CHR ''0'') = 0"
    by (induction m) (simp_all add: hexValue_def)
  then show ?thesis by (simp add: fromString16_def)
qed

lemma pad_slice:
  assumes "length s \<le> 8"
  shows "slice_last 8 (''00000000'' @ s) = replicate (8 - length s) CHR ''0'' @ s"
proof -
  have z: "''00000000'' = replicate 8 CHR ''0''" by (simp add: eval_nat_numeral)
  have "drop (length s) (replicate 8 CHR ''0'') = replicate (8 - length s) CHR ''0''"
    by simp
  then show ?thesis using assms unfolding slice_last_def z by simp
qed

lemma draw_bound:
  fixes x :: real
  assumes "0 \<le> x" "x < 1"
  shows "nat \<lfloor>x * 256 ^ 4\<rfloor> < 16 ^ 8"
proof -
  have "x * 256 ^ 4 < 4294967296" using assms by simp
  then have "\<lfloor>x * 256 ^ 4\<rfloor> < 4294967296" by (simp add: floor_less_iff)
  moreover have "(16::nat) ^ 8 = 4294967296" by simp
  ultimately show ?thesis by linarith
qed

lemma randomBlock_eq:
  assumes "0 \<le> x" "x < 1"
  shows "randomBlock x = replicate (8 - length (toString16 (nat \<lfloor>x * 256 ^ 4\<rfloor>))) CHR ''0''
            @ toString16 (nat \<lfloor>x * 256 ^ 4\<rfloor>)"
  unfolding randomBlock_def
  by (rule pad_slice) (rule toString16_length [OF draw_bound [OF assms]], simp)

lemma randomBlock_length:
  assumes "0 \<le> x" "x < 1"
  shows "length (randomBlock x) = 8"
proof -
  have "length (toString16 (nat \<lfloor>x * 256 ^ 4\<rfloor>)) \<le> 8"
    by (rule toString16_length [OF draw_bound [OF assms]]) simp
  then show ?thesis by (simp add: randomBlock_eq [OF assms])
qed

lemma randomBlock_chars: "0 \<le> x \<Longrightarrow> x < 1 \<Longrightarrow> set (randomBlock x) \<subseteq> hexChars"
  using toString16_chars [of "nat \<lfloor>x * 256 ^ 4\<rfloor>"]
  by (auto simp: randomBlock_eq hexChars_def)

lemma randomBlock_value: "0 \<le> x \<Longrightarrow> x < 1 \<Longrightarrow> fromString16 (randomBlock x) = nat \<lfloor>x * 256 ^ 4\<rfloor>"
  by (simp add: randomBlock_eq fromString16_zeros fromString16_toString16)

lemma randomSerialNumber_blocks:
  "randomSerialNumber rnd = randomBlock (rnd 0) @ randomBlock (rnd 1) @ randomBlock (rnd 2) @ randomBlock (rnd 3)"
  by (simp add: randomSerialNumber_def upt_rec numeral_eq_Suc)

text \<open>
  C8 (serial width). For four draws of \<open>Math.random()\<close>, each in \<open>[0, 1)\<close>, the serial
  number is 32 lowercase hexadecimal characters: its \<open>i\<close>-th block of 8 characters is
  the block of the \<open>i\<close>-th draw and reads back as the 32-bit number
  \<open>\<lfloor>x * 256 ^ 4\<rfloor>\<close> of that draw, so the serial carries all 128 bits drawn.
\<close>

theorem serial_width:
  assumes "\<forall>i < 4. 0 \<le> rnd i \<and> rnd i < 1"
  shows "length (randomSerialNumber rnd) = 32
       \<and> set (randomSerialNumber rnd) \<subseteq> hexChars
       \<and> (\<forall>i < 4. take 8 (drop (8 * i) (randomSerialNumber rnd)) = randomBlock (rnd i)
                  \<and> fromString16 (randomBlock (rnd i)) = nat \<lfloor>rnd i * 256 ^ 4\<rfloor>
                  \<and> nat \<lfloor>rnd i * 256 ^ 4\<rfloor> < 2 ^ 32)"
proof -
  have r: "0 \<le> rnd 0" "rnd 0 < 1" "0 \<le> rnd 1" "rnd 1 < 1" "0 \<le> rnd 2" "rnd 2 < 1" "0 \<le> rnd 3" "rnd 3 < 1"
    using assms by auto
  note len = randomBlock_length [OF r(1,2)] randomBlock_length [OF r(3,4)]
    randomBlock_length [OF r(5,6)] randomBlock_length [OF r(7,8)]
  have a: "length (randomSerialNumber rnd) = 32"
    using len by (simp add: randomSerialNumber_blocks)
  have b: "set (randomSerialNumber rnd) \<subseteq> hexChars"
    using randomBlock_chars [OF r(1,2)] randomBlock_chars [OF r(3,4)]
      randomBlock_chars [OF r(5,6)] randomBlock_chars [OF r(7,8)]
    by (simp add: randomSerialNumber_blocks)
  have c: "take 8 (drop (8 * i) (randomSerialNumber rnd)) = randomBlock (rnd i)" if "i < 4" for i
  proof -
    from that have "i = 0 \<or> i = 1 \<or> i = 2 \<or> i = 3" by auto
    then show ?thesis using len by (auto simp: randomSerialNumber_blocks)
  qed
  have d: "fromString16 (randomBlock (rnd i)) = nat \<lfloor>rnd i * 256 ^ 4\<rfloor> \<and> nat \<lfloor>rnd i * 256 ^ 4\<rfloor> < 2 ^ 32"
    if "i < 4" for i
    using that assms randomBlock_value [of "rnd i"] draw_bound [of "rnd i"] by simp
  show ?thesis using a b c d by blast
qed

theorem serial_width_witness:
  "randomSerialNumber (\<lambda>i. if i = 0 then 0 else if i = 1 then 1 / 2 else 1 / 3)
      = ''00000000800000005555555555555555''
   \<and> length (randomSerialNumber (\<lambda>i. if i = 0 then 0 else if i = 1 then 1 / 2 else 1 / 3)) = 32"
proof -
  have h: "\<forall>i < 4. 0 \<le> (\<lambda>i::nat. if i = 0 then 0 else if i = 1 then 1 / 2 else 1 / (3::real)) i
      \<and> (\<lambda>i::nat. if i = 0 then 0 else if i = 1 then 1 / 2 else 1 / (3::real)) i < 1"
    by simp
  have "randomSerialNumber (\<lambda>i. if i = 0 then 0 else if i = 1 then 1 / 2 else 1 / 3)
      = ''00000000800000005555555555555555''"
    by (simp add: randomSerialNumber_blocks randomBlock_def slice_last_def toString16.simps hexDigit_def)
  then show ?thesis using serial_width [OF h] by simp
qed

end
